theory Spec2Isabelle
  imports Complex_Main "HOL-Library.Word" "HOL-Library.Sublist"
begin

section \<open>Floating-point values of the progress calculation\<close>

text \<open>
  \<^verbatim>\<open>filter_frame\<close> computes the progress in C \<^verbatim>\<open>float\<close> and \<^verbatim>\<open>double\<close>, the
  IEEE 754 formats binary32 and binary64, every operation rounding its exact result to
  the nearest value of its type, ties to the even significand (an implementation
  with \<^verbatim>\<open>FLT_EVAL_METHOD\<close> 0 in the default rounding mode). A value is a NaN, an
  infinity, the negative zero, or a finite number; \<open>Fin 0\<close> is the positive zero.
\<close>

datatype fval = NaN | NInf | Fin real | NZero | PInf

fun val_of :: "fval \<Rightarrow> real" where
  "val_of (Fin x) = x"
| "val_of _ = 0"

fun sign_bit :: "fval \<Rightarrow> bool" where
  "sign_bit NInf = True"
| "sign_bit NZero = True"
| "sign_bit (Fin x) = (x < 0)"
| "sign_bit _ = False"

fun is_finite :: "fval \<Rightarrow> bool" where
  "is_finite (Fin x) = True"
| "is_finite NZero = True"
| "is_finite _ = False"

fun is_inf :: "fval \<Rightarrow> bool" where
  "is_inf NInf = True"
| "is_inf PInf = True"
| "is_inf _ = False"

text \<open>The infinity of a sign, and the finite value of a sign and a magnitude.\<close>

definition inf_of :: "bool \<Rightarrow> fval" where
  "inf_of s = (if s then NInf else PInf)"

definition sign_mag :: "bool \<Rightarrow> real \<Rightarrow> fval" where
  "sign_mag s m = (if m = 0 then (if s then NZero else Fin 0) else Fin (if s then - m else m))"

text \<open>
  The two formats: the number of significand bits and the exponents of the smallest
  and of the largest normal number.
\<close>

datatype float_format = Binary32 | Binary64

fun precision :: "float_format \<Rightarrow> nat" where
  "precision Binary32 = 24"
| "precision Binary64 = 53"

fun emin :: "float_format \<Rightarrow> int" where
  "emin Binary32 = - 126"
| "emin Binary64 = - 1022"

fun emax :: "float_format \<Rightarrow> int" where
  "emax Binary32 = 127"
| "emax Binary64 = 1023"

text \<open>The nearest integer, a tie going to the even one.\<close>

definition rne :: "real \<Rightarrow> int" where
  "rne x = (let f = \<lfloor>x\<rfloor>; r = x - of_int f in
     if r < 1 / 2 then f else if 1 / 2 < r then f + 1 else if even f then f else f + 1)"

text \<open>
  Rounding a positive number \<open>x\<close>. Its exponent is that of the power of 2 at or next
  below it (a number that is not positive has none, and 0 stands for it). The spacing of the format's values around \<open>x\<close> is \<open>2\<close> to the exponent of
  \<open>x\<close> (not below \<open>emin\<close>, where the subnormal numbers are evenly spaced) less the
  significand bits after the first; \<open>x\<close> goes to the nearest multiple of it. A result of \<open>2 ^ (emax + 1)\<close> or more is an overflow and gives an
  infinity; a zero result keeps the sign of \<open>x\<close>. For the exact result zero the sign
  is the operation's to choose, and is the argument \<open>s\<close>.
\<close>

definition exponent :: "real \<Rightarrow> int" where
  "exponent x = (if 0 < x then \<lfloor>log 2 x\<rfloor> else 0)"

definition ulp :: "float_format \<Rightarrow> real \<Rightarrow> real" where
  "ulp f x = 2 powi (max (exponent x) (emin f) - int (precision f) + 1)"

definition round_mag :: "float_format \<Rightarrow> real \<Rightarrow> real" where
  "round_mag f x = of_int (rne (x / ulp f x)) * ulp f x"

definition fround :: "float_format \<Rightarrow> bool \<Rightarrow> real \<Rightarrow> fval" where
  "fround f s x =
     (if x = 0 then sign_mag s 0
      else let m = round_mag f \<bar>x\<bar> in
        if 2 powi (emax f + 1) \<le> m then inf_of (x < 0) else sign_mag (x < 0) m)"

text \<open>
  The operations of lines 253 and 254. A quotient has the sign of its operands'
  signs combined; a nonzero number over a zero is an infinity, a zero over a zero or
  an infinity over an infinity a NaN. A difference that is exactly zero is the
  positive zero, unless a negative zero had a positive zero subtracted. A conversion
  to \<^verbatim>\<open>float\<close> rounds and keeps the sign; the conversion of a \<^verbatim>\<open>float\<close> to \<^verbatim>\<open>double\<close>
  changes nothing and is not written.
\<close>

definition fdiv :: "float_format \<Rightarrow> fval \<Rightarrow> fval \<Rightarrow> fval" where
  "fdiv f a b =
     (let s = (sign_bit a \<noteq> sign_bit b) in
      if a = NaN \<or> b = NaN then NaN
      else if is_inf a then (if is_inf b then NaN else inf_of s)
      else if is_inf b then sign_mag s 0
      else if val_of b = 0 then (if val_of a = 0 then NaN else inf_of s)
      else fround f s (val_of a / val_of b))"

definition fsub :: "float_format \<Rightarrow> fval \<Rightarrow> fval \<Rightarrow> fval" where
  "fsub f a b =
     (if a = NaN \<or> b = NaN then NaN
      else if is_inf a then (if is_inf b \<and> sign_bit a = sign_bit b then NaN else a)
      else if is_inf b then inf_of (\<not> sign_bit b)
      else fround f (sign_bit a \<and> \<not> sign_bit b) (val_of a - val_of b))"

definition convert :: "float_format \<Rightarrow> fval \<Rightarrow> fval" where
  "convert f a = (if is_finite a then fround f (sign_bit a) (val_of a) else a)"

definition float_of_int :: "int \<Rightarrow> fval" where
  "float_of_int n = fround Binary32 False (of_int n)"

text \<open>
  The C comparison \<^verbatim>\<open>a > b\<close>: false as soon as one side is a NaN, and the two zeros
  are equal.
\<close>

fun fgt :: "fval \<Rightarrow> fval \<Rightarrow> bool" where
  "fgt NaN _ = False"
| "fgt _ NaN = False"
| "fgt PInf b = (b \<noteq> PInf)"
| "fgt NInf _ = False"
| "fgt a PInf = False"
| "fgt a NInf = True"
| "fgt a b = (val_of b < val_of a)"

text \<open>
  libavutil's macros, as \<^verbatim>\<open>filter_frame\<close> uses them:
  \<^verbatim>\<open>#define FFMAX(a,b) ((a) > (b) ? (a) : (b))\<close> and
  \<^verbatim>\<open>#define FFMIN(a,b) ((a) > (b) ? (b) : (a))\<close>.
\<close>

definition FFMAX :: "fval \<Rightarrow> fval \<Rightarrow> fval" where
  "FFMAX a b = (if fgt a b then a else b)"

definition FFMIN :: "fval \<Rightarrow> fval \<Rightarrow> fval" where
  "FFMIN a b = (if fgt a b then b else a)"

text \<open>
  Lines 253 and 254 of \<^verbatim>\<open>filter_frame\<close>:
  \<^verbatim>\<open>const float ts = in->pts / (float)inlink->time_base.den - c->offset;\<close>
  \<^verbatim>\<open>const float progress = FFMAX(0.0f, FFMIN(1.0f, ts / c->duration));\<close>
  The timestamp is an \<^verbatim>\<open>int64_t\<close> and the denominator an \<^verbatim>\<open>int\<close>; both are converted
  to \<^verbatim>\<open>float\<close> and divided in \<^verbatim>\<open>float\<close>. The options \<^verbatim>\<open>offset\<close> and \<^verbatim>\<open>duration\<close> are
  doubles, so the subtraction is done in \<^verbatim>\<open>double\<close> and its result converted to
  \<^verbatim>\<open>float\<close> when stored in \<^verbatim>\<open>ts\<close>; the division by the duration and the two macros
  work in \<^verbatim>\<open>double\<close>, and the result is converted to \<^verbatim>\<open>float\<close> when stored in
  \<^verbatim>\<open>progress\<close>, the value given to \<^verbatim>\<open>glUniform1f\<close>.
\<close>

definition frame_ts :: "64 word \<Rightarrow> 32 word \<Rightarrow> fval \<Rightarrow> fval" where
  "frame_ts pts den off =
     convert Binary32
       (fsub Binary64 (fdiv Binary32 (float_of_int (sint pts)) (float_of_int (sint den))) off)"

definition frame_progress :: "64 word \<Rightarrow> 32 word \<Rightarrow> fval \<Rightarrow> fval \<Rightarrow> fval" where
  "frame_progress pts den off dur =
     convert Binary32
       (FFMAX (Fin 0) (FFMIN (Fin 1) (fdiv Binary64 (frame_ts pts den off) dur)))"

text \<open>
  A value of the closed unit interval: finite, at least 0 and at most 1. The negative
  zero is one, being equal to 0.
\<close>

definition in_unit :: "fval \<Rightarrow> bool" where
  "in_unit v = (is_finite v \<and> 0 \<le> val_of v \<and> val_of v \<le> 1)"

text \<open>The C comparison \<^verbatim>\<open>a <= b\<close>, for the monotonicity statement.\<close>

fun fle :: "fval \<Rightarrow> fval \<Rightarrow> bool" where
  "fle NaN _ = False"
| "fle _ NaN = False"
| "fle NInf _ = True"
| "fle _ PInf = True"
| "fle PInf _ = False"
| "fle _ NInf = False"
| "fle a b = (val_of a \<le> val_of b)"


section \<open>The shader sources\<close>

definition v_shader_source :: string where
  "v_shader_source =
     ''attribute vec2 position;\<newline>'' @
     ''varying vec2 _uv;\<newline>'' @
     ''void main(void) {\<newline>'' @
     ''  gl_Position = vec4(position, 0, 1);\<newline>'' @
     ''  vec2 uv = position * 0.5 + 0.5;\<newline>'' @
     ''  _uv = uv;\<newline>'' @
     ''}\<newline>''"

text \<open>The template, cut at its only conversion specification \<^verbatim>\<open>%s\<close>.\<close>

definition template_head :: string where
  "template_head =
     ''uniform sampler2D to;\<newline>'' @
     ''varying vec2 _uv;\<newline>'' @
     ''uniform float progress;\<newline>'' @
     ''uniform vec2 resolution;'' @
     ''\<newline>'' @
     ''\<newline>''"

definition template_tail :: string where
  "template_tail =
     ''\<newline>'' @
     ''\<newline>'' @
     ''void main() {\<newline>'' @
     ''  gl_FragColor = transition(_uv);\<newline>'' @
     ''}\<newline>''"

definition f_shader_template :: string where
  "f_shader_template = template_head @ ''%s'' @ template_tail"

definition f_default_transition_source :: string where
  "f_default_transition_source =
     ''vec4 transition (vec2 uv) {\<newline>'' @
     ''  return texture2D(to, uv);\<newline>'' @
     ''}\<newline>''"

text \<open>The declarations the template makes, one per line of the C literal.\<close>

definition template_declarations :: "string list" where
  "template_declarations =
     [''uniform sampler2D to;'', ''varying vec2 _uv;'',
      ''uniform float progress;'', ''uniform vec2 resolution;'']"

section \<open>C strings, \<^verbatim>\<open>strlen\<close> and \<^verbatim>\<open>snprintf\<close>\<close>

text \<open>
  A buffer is a list of bytes; the C string it holds ends before its first NUL.
\<close>

definition c_str :: "string \<Rightarrow> string" where
  "c_str bytes = takeWhile (\<lambda>c. c \<noteq> CHR 0x00) bytes"

definition strlen :: "string \<Rightarrow> nat" where
  "strlen bytes = length (c_str bytes)"

text \<open>
  The text a format produces from its string arguments. The conversions interpreted
  are \<^verbatim>\<open>%s\<close> and \<^verbatim>\<open>%%\<close>; any other use of \<^verbatim>\<open>%\<close>, and a \<^verbatim>\<open>%s\<close> with no
  argument left, is outside the model (\<open>None\<close>).
\<close>

fun format :: "string \<Rightarrow> string list \<Rightarrow> string option" where
  "format [] args = Some []"
| "format [c] args = (if c = CHR ''%'' then None else Some [c])"
| "format (c # d # rest) args =
     (if c \<noteq> CHR ''%'' then map_option ((#) c) (format (d # rest) args)
      else if d = CHR ''%'' then map_option ((#) CHR ''%'') (format rest args)
      else if d = CHR ''s'' then
        (case args of
           [] \<Rightarrow> None
         | a # as \<Rightarrow> map_option ((@) (c_str a)) (format rest as))
      else None)"

text \<open>
  \<^verbatim>\<open>snprintf(buf, size, fmt, ...)\<close> stores at most \<open>n - 1\<close> characters of the text
  and a NUL after them (nothing at all when the size \<open>n\<close> is 0), and returns the length of
  the whole text. The result here is the C string the buffer holds afterwards (the
  buffer comes zeroed from \<^verbatim>\<open>av_calloc\<close>) and that length.
\<close>

definition snprintf :: "nat \<Rightarrow> string \<Rightarrow> string list \<Rightarrow> (string \<times> nat) option" where
  "snprintf n fmt args =
     map_option (\<lambda>out. (take (n - 1) out, length out)) (format fmt args)"

text \<open>
  \<^verbatim>\<open>int len = strlen(...) + strlen(...)\<close>: the sum is a \<^verbatim>\<open>size_t\<close>, stored in a
  32-bit \<^verbatim>\<open>int\<close> (reduced modulo \<open>2^32\<close> and read as two's complement).
\<close>

definition int_of_size_t :: "nat \<Rightarrow> int" where
  "int_of_size_t n = sint (word_of_nat n :: 32 word)"

text \<open>
  Lines 133 and 139 of \<^verbatim>\<open>build_program\<close>: the length computed for the buffer, and
  what \<^verbatim>\<open>snprintf\<close> leaves in a buffer of that many bytes.
\<close>

definition source_len :: "string \<Rightarrow> int" where
  "source_len transition_source =
     int_of_size_t (strlen f_shader_template + strlen transition_source)"

definition composed_text :: "string \<Rightarrow> (string \<times> nat) option" where
  "composed_text transition_source =
     snprintf (nat (source_len transition_source)) f_shader_template [transition_source]"

section \<open>The filter instance and its surroundings\<close>

datatype shader_type = GL_VERTEX_SHADER | GL_FRAGMENT_SHADER

text \<open>
  Object names are numbers, 0 being no object (a zero \<^verbatim>\<open>GLuint\<close>, a NULL pointer).
\<close>

datatype resource =
    Window nat | Shader nat | Program nat | Buffer nat | Texture nat | Heap nat

datatype event =
    Created resource
  | Released resource
  | Ignored resource
  | BadRelease resource
  | Compile nat string
  | Link nat
  | Uniform1f int fval
  | TexImage2D nat "nat list"
  | DrawArrays nat
  | ReadPixels

record GenericShaderContext =
  duration :: fval
  offset :: fval
  source :: "string option"
  first_pts :: "64 word"
  progress :: int
  frame_tex :: nat
  program :: nat
  pos_buf :: nat
  window :: nat
  f_shader_source :: "(nat \<times> string) option"

record AVFrame =
  pts :: "64 word"
  data :: "nat list"

text \<open>
  A file as the four stdio calls of \<^verbatim>\<open>build_program\<close> see it: the offset
  \<^verbatim>\<open>ftell\<close> reports at its end, read as \<^verbatim>\<open>unsigned long\<close>, and the bytes
  \<^verbatim>\<open>fread\<close> stores when it reads its one item (\<open>None\<close> when it reads no item).
\<close>

record stdio_file =
  fsize :: nat
  fread_data :: "string option"

text \<open>
  Everything the code does not decide: the window system, the GL driver, the C
  library and the host pipeline. Each field is the outcome of one external call.
\<close>

record env =
  glfwInit_ok :: bool
  glfwCreateWindow_ok :: bool
  glCreateShader_ok :: "shader_type \<Rightarrow> bool"
  compile_status :: "shader_type \<Rightarrow> string \<Rightarrow> bool"
  info_log :: "shader_type \<Rightarrow> string \<Rightarrow> string"
  glCreateProgram_ok :: bool
  link_status :: bool
  uniform_location :: "string \<Rightarrow> int"
  fopen :: "string \<Rightarrow> stdio_file option"
  malloc :: "nat \<Rightarrow> string option"
  av_calloc_ok :: bool
  get_video_buffer_ok :: bool
  gpu_render :: "string \<Rightarrow> fval \<Rightarrow> nat list \<Rightarrow> nat list"
  ff_filter_frame :: "AVFrame \<Rightarrow> int"

text \<open>
  The state: the filter's private context, the objects alive in the driver and on the
  heap, the diagnostics the driver keeps per shader object, the next fresh name, the
  calls made so far and the error messages given to \<^verbatim>\<open>av_log\<close>.
\<close>

record world =
  priv :: GenericShaderContext
  live :: "resource list"
  shader_logs :: "(nat \<times> string) list"
  next_name :: nat
  trace :: "event list"
  av_log :: "string list"

text \<open>
  What a call comes to: a return value, or a step C leaves undefined (a store through
  NULL or past a block, a read of bytes nobody wrote).
\<close>

datatype outcome = Returns int | Undefined_Behaviour

definition ENOMEM :: int where
  "ENOMEM = 12"

definition AVERROR :: "int \<Rightarrow> int" where
  "AVERROR e = - e"

definition emit :: "event \<Rightarrow> world \<Rightarrow> world" where
  "emit ev w = w\<lparr>trace := trace w @ [ev]\<rparr>"

definition create :: "(nat \<Rightarrow> resource) \<Rightarrow> world \<Rightarrow> nat \<times> world" where
  "create kind w =
     (let n = next_name w
      in (n, emit (Created (kind n)) (w\<lparr>live := kind n # live w, next_name := Suc n\<rparr>)))"

definition release :: "resource \<Rightarrow> world \<Rightarrow> world" where
  "release r w = emit (Released r) (w\<lparr>live := removeAll r (live w)\<rparr>)"

section \<open>The GL, GLFW and libavutil calls\<close>

text \<open>
  \<^verbatim>\<open>glDeleteTextures\<close> and \<^verbatim>\<open>glDeleteBuffers\<close> silently ignore 0 and names that
  are not objects; \<^verbatim>\<open>glDeleteProgram\<close> silently ignores 0 and raises
  \<^verbatim>\<open>GL_INVALID_VALUE\<close> on another name that is no program;
  \<^verbatim>\<open>glfwDestroyWindow\<close> does nothing for NULL and, like \<^verbatim>\<open>av_freep\<close>, must
  otherwise be given something alive. A call that is ignored is recorded as such, a
  call on something that is not alive as a bad release.
\<close>

definition glDeleteTextures :: "nat \<Rightarrow> world \<Rightarrow> world" where
  "glDeleteTextures n w =
     (if Texture n \<in> set (live w) then release (Texture n) w else emit (Ignored (Texture n)) w)"

definition glDeleteBuffers :: "nat \<Rightarrow> world \<Rightarrow> world" where
  "glDeleteBuffers n w =
     (if Buffer n \<in> set (live w) then release (Buffer n) w else emit (Ignored (Buffer n)) w)"

definition glDeleteProgram :: "nat \<Rightarrow> world \<Rightarrow> world" where
  "glDeleteProgram n w =
     (if n = 0 then emit (Ignored (Program n)) w
      else if Program n \<in> set (live w) then release (Program n) w
      else emit (BadRelease (Program n)) w)"

definition glfwDestroyWindow :: "nat \<Rightarrow> world \<Rightarrow> world" where
  "glfwDestroyWindow n w =
     (if n = 0 then emit (Ignored (Window n)) w
      else if Window n \<in> set (live w) then release (Window n) w
      else emit (BadRelease (Window n)) w)"

definition av_freep_f_shader_source :: "world \<Rightarrow> world" where
  "av_freep_f_shader_source w =
     (case f_shader_source (priv w) of
        None \<Rightarrow> w
      | Some (p, _) \<Rightarrow>
          (if Heap p \<in> set (live w) then release (Heap p) w else emit (BadRelease (Heap p)) w)
            \<lparr>priv := (priv w)\<lparr>f_shader_source := None\<rparr>\<rparr>)"

text \<open>
  \<^verbatim>\<open>glGetShaderInfoLog\<close>: the diagnostic the driver keeps for a shader object, for
  whoever holds the object's name. The filter never calls it.
\<close>

definition glGetShaderInfoLog :: "world \<Rightarrow> nat \<Rightarrow> string" where
  "glGetShaderInfoLog w n = (case map_of (shader_logs w) n of None \<Rightarrow> [] | Some l \<Rightarrow> l)"

section \<open>Building the program\<close>

definition build_shader :: "env \<Rightarrow> string \<Rightarrow> shader_type \<Rightarrow> world \<Rightarrow> nat \<times> world" where
  "build_shader e shader_source ty w =
     (if \<not> glCreateShader_ok e ty then (0, w)
      else
        (case create Shader w of (shader, w1) \<Rightarrow>
           let w2 = emit (Compile shader (c_str shader_source))
                      (w1\<lparr>shader_logs :=
                            (shader, info_log e ty (c_str shader_source)) # shader_logs w1\<rparr>)
           in (if compile_status e ty (c_str shader_source) then shader else 0, w2)))"

text \<open>
  The file branch of \<^verbatim>\<open>build_program\<close>, after a successful \<^verbatim>\<open>fopen\<close>:
  \<^verbatim>\<open>malloc(fsize + 1)\<close>, \<^verbatim>\<open>fread(source, fsize, 1, f)\<close>, \<^verbatim>\<open>source[fsize] = 0\<close>.
  No result of these calls is tested. A NULL block, or one shorter than
  \<open>fsize + 1\<close> bytes (the sum wraps at \<open>2^64\<close>), is written through all the same:
  \<open>None\<close>. Otherwise the block holds what \<^verbatim>\<open>fread\<close> stored over what \<^verbatim>\<open>malloc\<close>
  returned, and a NUL.
\<close>

definition read_source :: "env \<Rightarrow> stdio_file \<Rightarrow> string option" where
  "read_source e f =
     (let n = (fsize f + 1) mod 2 ^ 64
      in case malloc e n of
           None \<Rightarrow> None
         | Some block \<Rightarrow>
             if n \<le> fsize f \<or> length block < n then None
             else
               Some (take (fsize f)
                       (case fread_data f of
                          None \<Rightarrow> block
                        | Some d \<Rightarrow> d @ drop (length d) block)
                     @ [CHR 0x00]))"

definition invalid_source_message :: "string \<Rightarrow> string" where
  "invalid_source_message path =
     ''invalid glsl source file '' @ [CHR 0x22] @ c_str path @ [CHR 0x22] @ ''\<newline>''"

text \<open>
  Lines 131 to 158 of \<^verbatim>\<open>build_program\<close>, from the choice of the transition source
  to the link status. A negative \<^verbatim>\<open>len\<close> reaches \<^verbatim>\<open>av_calloc\<close> as a count above
  \<open>2^63\<close>, which it refuses. A zero \<^verbatim>\<open>len\<close> leaves \<^verbatim>\<open>snprintf\<close> nothing to write,
  and the compiler then reads a string nobody stored. The block read from the file is
  local to the function and is not followed here; when \<^verbatim>\<open>glCreateProgram\<close> gives
  no program, the status tested is whatever the driver leaves in it.
\<close>

definition compose_and_link :: "env \<Rightarrow> nat \<Rightarrow> string \<Rightarrow> world \<Rightarrow> outcome \<times> world" where
  "compose_and_link e v_shader transition_source w =
     (let len = source_len transition_source
      in if len < 0 \<or> \<not> av_calloc_ok e then (Returns (AVERROR ENOMEM), w)
         else
           (case create Heap w of (p, w1) \<Rightarrow>
              (case (if len = 0 then None else composed_text transition_source) of
                 None \<Rightarrow> (Undefined_Behaviour, w1)
               | Some (composed, _) \<Rightarrow>
                   let w2 = w1\<lparr>priv := (priv w1)\<lparr>f_shader_source := Some (p, composed)\<rparr>\<rparr>
                   in (case build_shader e composed GL_FRAGMENT_SHADER w2 of (f_shader, w3) \<Rightarrow>
                         if f_shader = 0 then
                           (Returns (- 1), w3\<lparr>av_log := av_log w3 @ [''invalid fragment shader\<newline>'']\<rparr>)
                         else
                           (case (if glCreateProgram_ok e then create Program w3 else (0, w3)) of
                              (prog, w4) \<Rightarrow>
                                let w5 = emit (Link prog) (w4\<lparr>priv := (priv w4)\<lparr>program := prog\<rparr>\<rparr>)
                                in (Returns (if link_status e then 0 else - 1), w5))))))"

definition build_program :: "env \<Rightarrow> world \<Rightarrow> outcome \<times> world" where
  "build_program e w =
     (case build_shader e v_shader_source GL_VERTEX_SHADER w of (v_shader, w1) \<Rightarrow>
        if v_shader = 0 then
          (Returns (- 1), w1\<lparr>av_log := av_log w1 @ [''invalid vertex shader\<newline>'']\<rparr>)
        else
          (case source (priv w1) of
             None \<Rightarrow> compose_and_link e v_shader f_default_transition_source w1
           | Some path \<Rightarrow>
               (case fopen e (c_str path) of
                  None \<Rightarrow>
                    (Returns (- 1), w1\<lparr>av_log := av_log w1 @ [invalid_source_message path]\<rparr>)
                | Some f \<Rightarrow>
                    (case read_source e f of
                       None \<Rightarrow> (Undefined_Behaviour, w1)
                     | Some block \<Rightarrow> compose_and_link e v_shader block w1))))"

section \<open>Configuration, frames and teardown\<close>

text \<open>
  Of the calls of \<^verbatim>\<open>config_props\<close>, \<^verbatim>\<open>filter_frame\<close> and \<^verbatim>\<open>uninit\<close>, the state
  follows those that create or release an object, compile or link, pass the progress,
  upload, draw or read back. Those that only select what later calls work on
  (\<^verbatim>\<open>glfwMakeContextCurrent\<close>, \<^verbatim>\<open>glUseProgram\<close>, \<^verbatim>\<open>glBindBuffer\<close>,
  \<^verbatim>\<open>glBindTexture\<close>, \<^verbatim>\<open>glActiveTexture\<close>) or set a parameter
  (\<^verbatim>\<open>glViewport\<close>, \<^verbatim>\<open>glTexParameteri\<close>, the \<^verbatim>\<open>to\<close> and \<^verbatim>\<open>resolution\<close>
  uniforms, the vertex attribute) leave no mark: there is one instance and one context.
  Nor does the message with the size of the link that \<^verbatim>\<open>uniforms_setup\<close> logs at
  the information level.
\<close>

definition vbo_setup :: "world \<Rightarrow> world" where
  "vbo_setup w = (case create Buffer w of (n, w1) \<Rightarrow> w1\<lparr>priv := (priv w1)\<lparr>pos_buf := n\<rparr>\<rparr>)"

definition tex_setup :: "world \<Rightarrow> world" where
  "tex_setup w =
     (case create Texture w of (n, w1) \<Rightarrow>
        emit (TexImage2D n []) (w1\<lparr>priv := (priv w1)\<lparr>frame_tex := n\<rparr>\<rparr>))"

definition uniforms_setup :: "env \<Rightarrow> world \<Rightarrow> world" where
  "uniforms_setup e w =
     (let loc = uniform_location e ''progress''
      in emit (Uniform1f loc (Fin 0)) (w\<lparr>priv := (priv w)\<lparr>progress := loc\<rparr>\<rparr>))"

definition config_props :: "env \<Rightarrow> world \<Rightarrow> outcome \<times> world" where
  "config_props e w =
     (if \<not> glfwCreateWindow_ok e then
        (Returns (- 1), w\<lparr>av_log := av_log w @ [''config_props setup_gl ERROR: '']\<rparr>)
      else
        (case create Window w of (win, w1) \<Rightarrow>
           (case build_program e (w1\<lparr>priv := (priv w1)\<lparr>window := win\<rparr>\<rparr>) of
              (Returns ret, w2) \<Rightarrow>
                if ret < 0 then (Returns ret, w2)
                else (Returns 0, uniforms_setup e (tex_setup (vbo_setup w2)))
            | (Undefined_Behaviour, w2) \<Rightarrow> (Undefined_Behaviour, w2))))"

definition AV_NOPTS_VALUE :: "64 word" where
  "AV_NOPTS_VALUE = - (2 ^ 63)"

definition init :: "env \<Rightarrow> world \<Rightarrow> int \<times> world" where
  "init e w =
     (let w1 = w\<lparr>priv := (priv w)\<lparr>first_pts := AV_NOPTS_VALUE\<rparr>\<rparr>
      in (if \<not> glfwInit_ok e then - 1 else 0, w1))"

definition filter_frame :: "env \<Rightarrow> 32 word \<Rightarrow> AVFrame \<Rightarrow> world \<Rightarrow> int \<times> AVFrame option \<times> world" where
  "filter_frame e den frame w =
     (if \<not> get_video_buffer_ok e then (AVERROR ENOMEM, None, w)
      else
        (let c = priv w;
             v = frame_progress (pts frame) den (offset c) (duration c);
             w1 = emit (Uniform1f (progress c) v) w;
             w2 = emit (TexImage2D (frame_tex c) (data frame)) w1;
             w3 = emit ReadPixels (emit (DrawArrays 6) w2);
             out = \<lparr>pts = pts frame,
                    data = gpu_render e
                             (case f_shader_source c of None \<Rightarrow> [] | Some (_, composed) \<Rightarrow> composed)
                             v (data frame)\<rparr>
         in (ff_filter_frame e out, Some out, w3)))"

definition uninit :: "world \<Rightarrow> world" where
  "uninit w =
     (let gs = priv w;
          w1 = (if window gs \<noteq> 0 then
                  glfwDestroyWindow (window gs)
                    (glDeleteBuffers (pos_buf gs)
                      (glDeleteProgram (program gs)
                        (glDeleteTextures (frame_tex gs) w)))
                else w)
      in if f_shader_source (priv w1) \<noteq> None then av_freep_f_shader_source w1 else w1)"

text \<open>
  The instance as the framework hands it to \<^verbatim>\<open>init\<close>: the private context zeroed
  except for the three options, nothing alive, nothing called.
\<close>

definition fresh_world :: "fval \<Rightarrow> fval \<Rightarrow> string option \<Rightarrow> world" where
  "fresh_world dur off src =
     \<lparr>priv = \<lparr>duration = dur, offset = off, source = src, first_pts = 0, progress = 0,
              frame_tex = 0, program = 0, pos_buf = 0, window = 0, f_shader_source = None\<rparr>,
      live = [], shader_logs = [], next_name = 1, trace = [], av_log = []\<rparr>"

text \<open>
  One instance from construction to teardown: \<^verbatim>\<open>init\<close>, \<^verbatim>\<open>config_props\<close> when the
  first frame's geometry is known, the frames (each with the denominator of the
  link's time base), \<^verbatim>\<open>uninit\<close>. A failed \<^verbatim>\<open>init\<close> or \<^verbatim>\<open>config_props\<close> is followed
  by \<^verbatim>\<open>uninit\<close> at once; after undefined behaviour there is nothing to say.
\<close>

fun feed :: "env \<Rightarrow> (32 word \<times> AVFrame) list \<Rightarrow> world \<Rightarrow> world" where
  "feed e [] w = w"
| "feed e ((den, frame) # rest) w = feed e rest (snd (snd (filter_frame e den frame w)))"

definition lifecycle :: "env \<Rightarrow> (32 word \<times> AVFrame) list \<Rightarrow> world \<Rightarrow> world option" where
  "lifecycle e frames w =
     (case init e w of (r, w1) \<Rightarrow>
        if r < 0 then Some (uninit w1)
        else
          (case config_props e w1 of
             (Undefined_Behaviour, w2) \<Rightarrow> None
           | (Returns ret, w2) \<Rightarrow>
               if ret < 0 then Some (uninit w2) else Some (uninit (feed e frames w2))))"

text \<open>
  What a trace says was created, released, released wrongly, passed as a uniform, and
  which of its events are delete calls.
\<close>

fun created :: "event list \<Rightarrow> resource list" where
  "created [] = []"
| "created (Created r # evs) = r # created evs"
| "created (_ # evs) = created evs"

fun released :: "event list \<Rightarrow> resource list" where
  "released [] = []"
| "released (Released r # evs) = r # released evs"
| "released (_ # evs) = released evs"

fun bad_releases :: "event list \<Rightarrow> resource list" where
  "bad_releases [] = []"
| "bad_releases (BadRelease r # evs) = r # bad_releases evs"
| "bad_releases (_ # evs) = bad_releases evs"

fun uniform_values :: "event list \<Rightarrow> fval list" where
  "uniform_values [] = []"
| "uniform_values (Uniform1f loc v # evs) = v # uniform_values evs"
| "uniform_values (_ # evs) = uniform_values evs"

fun is_delete :: "event \<Rightarrow> bool" where
  "is_delete (Released r) = True"
| "is_delete (Ignored r) = True"
| "is_delete (BadRelease r) = True"
| "is_delete _ = False"

fun is_shader :: "resource \<Rightarrow> bool" where
  "is_shader (Shader n) = True"
| "is_shader _ = False"

text \<open>
  What the caller of \<^verbatim>\<open>config_props\<close> has afterwards: the return value, the messages
  logged and the private context.
\<close>

definition visible :: "outcome \<times> world \<Rightarrow> outcome \<times> string list \<times> GenericShaderContext" where
  "visible res = (fst res, av_log (snd res), priv (snd res))"

section \<open>Sample surroundings\<close>

text \<open>
  A window system, driver and C library where every call succeeds, no file opens and
  \<^verbatim>\<open>malloc\<close> returns zeroed blocks; then variations of it. With
  \<open>unreadable_env\<close> the transition file opens and reports a size of 10 bytes, but
  \<^verbatim>\<open>fread\<close> reads nothing, and a fragment shader never compiles. With
  \<open>bad_fragment_env\<close> a fragment shader never compiles either, and the driver's
  diagnostic for it is the text given. With \<open>failed_link_env\<close> the program does not
  link, and with \<open>no_vertex_shader_env\<close> the driver creates no shader object.
\<close>

definition sample_env :: env where
  "sample_env =
     \<lparr>glfwInit_ok = True, glfwCreateWindow_ok = True,
      glCreateShader_ok = (\<lambda>ty. True), compile_status = (\<lambda>ty s. True),
      info_log = (\<lambda>ty s. []), glCreateProgram_ok = True, link_status = True,
      uniform_location = (\<lambda>name. 0), fopen = (\<lambda>path. None),
      malloc = (\<lambda>n. Some (replicate n (CHR 0x00))), av_calloc_ok = True,
      get_video_buffer_ok = True, gpu_render = (\<lambda>s v d. d), ff_filter_frame = (\<lambda>frame. 0)\<rparr>"

definition unreadable_env :: env where
  "unreadable_env =
     sample_env\<lparr>fopen := (\<lambda>path. Some \<lparr>fsize = 10, fread_data = None\<rparr>),
                 compile_status := (\<lambda>ty s. ty = GL_VERTEX_SHADER)\<rparr>"

definition bad_fragment_env :: "string \<Rightarrow> env" where
  "bad_fragment_env diagnostic =
     sample_env\<lparr>compile_status := (\<lambda>ty s. ty = GL_VERTEX_SHADER),
                 info_log := (\<lambda>ty s. if ty = GL_FRAGMENT_SHADER then diagnostic else [])\<rparr>"

definition failed_link_env :: env where
  "failed_link_env = sample_env\<lparr>link_status := False\<rparr>"

definition no_vertex_shader_env :: env where
  "no_vertex_shader_env = sample_env\<lparr>glCreateShader_ok := (\<lambda>ty. False)\<rparr>"

section \<open>Notions used in the proofs\<close>

text \<open>
  For the rounding: the exponent that fixes the spacing around a positive number, the
  rounding of a number of either sign when the exponent range has no upper end, and
  the least magnitude that overflows.
\<close>

definition expo :: "float_format \<Rightarrow> real \<Rightarrow> int" where
  "expo f x = max (exponent x) (emin f)"

definition rsigned :: "float_format \<Rightarrow> real \<Rightarrow> real" where
  "rsigned f x = (if x = 0 then 0 else if x < 0 then - round_mag f (- x) else round_mag f x)"

definition huge :: "float_format \<Rightarrow> real" where
  "huge f = 2 powi (emax f + 1)"

text \<open>
  The objects a private context names, in the order \<^verbatim>\<open>uninit\<close> releases them: a
  zero handle names nothing.
\<close>

fun name_of :: "resource \<Rightarrow> nat" where
  "name_of (Window n) = n"
| "name_of (Shader n) = n"
| "name_of (Program n) = n"
| "name_of (Buffer n) = n"
| "name_of (Texture n) = n"
| "name_of (Heap n) = n"

definition handle :: "(nat \<Rightarrow> resource) \<Rightarrow> nat \<Rightarrow> resource list" where
  "handle K n = (if n = 0 then [] else [K n])"

fun heap_block :: "(nat \<times> string) option \<Rightarrow> resource list" where
  "heap_block None = []"
| "heap_block (Some (p, c)) = [Heap p]"

definition owned :: "GenericShaderContext \<Rightarrow> resource list" where
  "owned gs =
     handle Texture (frame_tex gs) @ handle Program (program gs) @
     handle Buffer (pos_buf gs) @ handle Window (window gs) @ heap_block (f_shader_source gs)"

text \<open>
  The state of an instance that has not been torn down: nothing was released, the
  objects alive are those created, each under a name of its own below the next fresh
  name, and apart from the shader objects they are those the private context names.
  Without a window the context names no GL object.
\<close>

definition accounted :: "world \<Rightarrow> bool" where
  "accounted w \<longleftrightarrow>
     released (trace w) = [] \<and> bad_releases (trace w) = [] \<and>
     created (trace w) = rev (live w) \<and> distinct (live w) \<and>
     (\<forall>r \<in> set (live w). 0 < name_of r \<and> name_of r < next_name w) \<and>
     0 < next_name w \<and>
     set (filter (\<lambda>r. \<not> is_shader r) (live w)) = set (owned (priv w)) \<and>
     (window (priv w) = 0 \<longrightarrow>
        frame_tex (priv w) = 0 \<and> program (priv w) = 0 \<and> pos_buf (priv w) = 0)"

section \<open>Rounding\<close>

text \<open>The nearest integer is monotone and leaves the integers where they are.\<close>

lemma rne_of_int [simp]: "rne (of_int n) = n"
  by (simp add: rne_def)

lemma rne_bounds: "\<lfloor>x\<rfloor> \<le> rne x \<and> rne x \<le> \<lfloor>x\<rfloor> + 1"
  by (simp add: rne_def Let_def)

lemma rne_mono: assumes "x \<le> y" shows "rne x \<le> rne y"
proof (cases "\<lfloor>x\<rfloor> = \<lfloor>y\<rfloor>")
  case True
  then show ?thesis using assms by (auto simp add: rne_def Let_def)
next
  case False
  then have "\<lfloor>x\<rfloor> < \<lfloor>y\<rfloor>" using assms floor_mono [of x y] by linarith
  then show ?thesis using rne_bounds [of x] rne_bounds [of y] by linarith
qed

lemma rne_le: "x \<le> of_int n \<Longrightarrow> rne x \<le> n"
  using rne_mono [of x "of_int n"] by simp

lemma rne_ge: "of_int n \<le> x \<Longrightarrow> n \<le> rne x"
  using rne_mono [of "of_int n" x] by simp

lemma ulp_pos [simp]: "0 < ulp f x"
  by (simp add: ulp_def)

lemma ulp_nonneg [simp]: "0 \<le> ulp f x"
  by (simp add: ulp_def)

lemma ulp_neq0 [simp]: "ulp f x \<noteq> 0"
  by (simp add: ulp_def)

lemma exponent_mono: "0 < x \<Longrightarrow> x \<le> y \<Longrightarrow> exponent x \<le> exponent y"
  by (simp add: exponent_def floor_mono)

lemma round_mag_nonneg: "0 < x \<Longrightarrow> 0 \<le> round_mag f x"
proof -
  have "0 \<le> x / ulp f x" if "0 < x" using that by simp
  then have "0 \<le> rne (x / ulp f x)" if "0 < x" using that rne_ge [of 0 "x / ulp f x"] by simp
  then show "0 < x \<Longrightarrow> 0 \<le> round_mag f x"
    unfolding round_mag_def by (simp add: less_imp_le)
qed

lemma powr2_int:
  "2 powr (real_of_int k + 1) = (2::real) powi (k + 1)" "2 powr (real_of_int k) = (2::real) powi k"
  using powr_real_of_int' [of 2 "k + 1"] powr_real_of_int' [of 2 k] by simp_all

lemma exponent_bounds:
  assumes "0 < x"
  shows "2 powi exponent x \<le> x \<and> x < 2 powi (exponent x + 1)"
  using floor_log_eq_powr_iff [of x 2 "\<lfloor>log 2 x\<rfloor>"] assms
  by (simp add: powr2_int exponent_def)

lemma exponent_eq:
  assumes "2 powi k \<le> x" "x < 2 powi (k + 1)"
  shows "exponent x = k"
proof -
  have "0 < x" using assms(1) by (smt (verit) zero_less_power_int)
  then show ?thesis
    using floor_log_eq_powr_iff [of x 2 k] assms by (simp add: powr2_int exponent_def)
qed

text \<open>The exponent is found by halving or doubling until the number is in \<open>[1, 2)\<close>.\<close>

lemma exponent_code [code]:
  "exponent x =
     (if x \<le> 0 then 0
      else if x < 1 then exponent (2 * x) - 1
      else if 2 \<le> x then exponent (x / 2) + 1
      else 0)"
proof -
  consider "x \<le> 0" | "0 < x" "x < 1" | "2 \<le> x" | "1 \<le> x" "x < 2" by linarith
  then show ?thesis
  proof cases
    case 1
    then show ?thesis by (simp add: exponent_def)
  next
    case 2
    let ?k = "exponent (2 * x)"
    have "2 powi ?k \<le> 2 * x \<and> 2 * x < 2 powi (?k + 1)"
      using 2 by (intro exponent_bounds) simp
    moreover have "(2::real) powi (?k + 1) = 2 * 2 powi ?k"
      "(2::real) powi (?k - 1) = 2 powi ?k / 2"
      by (simp_all add: power_int_add power_int_diff)
    ultimately have "2 powi (?k - 1) \<le> x \<and> x < 2 powi (?k - 1 + 1)"
      by simp
    then have "exponent x = ?k - 1" by (intro exponent_eq) simp_all
    then show ?thesis using 2 by simp
  next
    case 3
    let ?k = "exponent (x / 2)"
    have "2 powi ?k \<le> x / 2 \<and> x / 2 < 2 powi (?k + 1)"
      using 3 by (intro exponent_bounds) simp
    moreover have "(2::real) powi (?k + 1) = 2 * 2 powi ?k"
      "(2::real) powi (?k + 1 + 1) = 4 * 2 powi ?k"
      by (simp_all add: power_int_add)
    ultimately have "2 powi (?k + 1) \<le> x \<and> x < 2 powi (?k + 1 + 1)"
      by simp
    then have "exponent x = ?k + 1" by (intro exponent_eq) simp_all
    then show ?thesis using 3 by simp
  next
    case 4
    then have "exponent x = 0" by (intro exponent_eq) simp_all
    then show ?thesis using 4 by simp
  qed
qed

lemma ulp_expo: "ulp f x = 2 powi (expo f x - int (precision f) + 1)"
  by (simp add: ulp_def expo_def)

lemma precision_pos [simp]: "0 < precision f"
  by (cases f) simp_all

lemma expo_mono: "0 < x \<Longrightarrow> x \<le> y \<Longrightarrow> expo f x \<le> expo f y"
  unfolding expo_def using exponent_mono [of x y] by linarith

lemma pow2_split: "(2::real) powi (a + b) = 2 powi a * 2 powi b"
  by (simp add: power_int_add)

lemma pow2_diff: "(2::real) powi (a - b) = 2 powi a / 2 powi b"
  by (simp add: power_int_diff)

lemma pow2_mono: "a \<le> b \<Longrightarrow> (2::real) powi a \<le> 2 powi b"
  by (simp add: power_int_increasing)

lemma pow2_less_cancel: "(2::real) powi a < 2 powi b \<Longrightarrow> a < b"
  by (meson linorder_not_le pow2_mono)

text \<open>
  A positive number and its rounding lie between the same two powers of 2, and
  rounding is monotone.
\<close>

lemma round_mag_upper:
  assumes "0 < x"
  shows "round_mag f x \<le> 2 powi (expo f x + 1)"
proof -
  let ?P = "int (precision f)"
  have "x < 2 powi (exponent x + 1)" using exponent_bounds [OF assms] by simp
  also have "\<dots> \<le> 2 powi (expo f x + 1)" by (rule pow2_mono) (simp add: expo_def)
  finally have "x < 2 powi (expo f x + 1)" .
  moreover have "2 powi (expo f x + 1) = 2 powi ?P * ulp f x"
    unfolding ulp_expo by (subst pow2_split [symmetric]) simp
  ultimately have "x / ulp f x < 2 powi ?P"
    by (simp add: pos_divide_less_eq)
  then have "x / ulp f x \<le> of_int (2 ^ precision f)" by simp
  then have "rne (x / ulp f x) \<le> 2 ^ precision f" by (rule rne_le)
  then have "real_of_int (rne (x / ulp f x)) \<le> 2 powi ?P"
    by (metis of_int_le_iff of_int_numeral of_int_power power_int_of_nat)
  then have "round_mag f x \<le> 2 powi ?P * ulp f x"
    unfolding round_mag_def by (simp add: mult_right_mono)
  then show ?thesis
    using \<open>2 powi (expo f x + 1) = 2 powi ?P * ulp f x\<close> by simp
qed

lemma round_mag_lower:
  assumes "0 < x" "emin f \<le> exponent x"
  shows "2 powi (expo f x) \<le> round_mag f x"
proof -
  let ?P = "int (precision f)"
  have e: "expo f x = exponent x" using assms(2) by (simp add: expo_def)
  have "2 powi (expo f x) \<le> x" using exponent_bounds [OF assms(1)] e by simp
  moreover have s: "2 powi (expo f x) = 2 powi (?P - 1) * ulp f x"
    unfolding ulp_expo by (subst pow2_split [symmetric]) simp
  ultimately have "2 powi (?P - 1) \<le> x / ulp f x"
    by (simp add: pos_le_divide_eq)
  moreover have "(2::real) powi (?P - 1) = of_int (2 ^ (precision f - 1))"
    using precision_pos [of f] by (simp add: power_int_def nat_diff_distrib')
  ultimately have "of_int (2 ^ (precision f - 1)) \<le> x / ulp f x" by simp
  then have "2 ^ (precision f - 1) \<le> rne (x / ulp f x)" by (rule rne_ge)
  then have "real_of_int (2 ^ (precision f - 1)) \<le> real_of_int (rne (x / ulp f x))"
    by (simp only: of_int_le_iff)
  then have "2 powi (?P - 1) \<le> real_of_int (rne (x / ulp f x))"
    using \<open>(2::real) powi (?P - 1) = of_int (2 ^ (precision f - 1))\<close> by simp
  then have "2 powi (?P - 1) * ulp f x \<le> round_mag f x"
    unfolding round_mag_def by (simp add: mult_right_mono)
  then show ?thesis using s by simp
qed

lemma round_mag_mono:
  assumes "0 < x" "x \<le> y"
  shows "round_mag f x \<le> round_mag f y"
proof (cases "expo f x = expo f y")
  case True
  then have u: "ulp f x = ulp f y" by (simp add: ulp_expo)
  have "x / ulp f y \<le> y / ulp f y" using assms(2) by (simp add: divide_right_mono)
  then have "rne (x / ulp f y) \<le> rne (y / ulp f y)" by (rule rne_mono)
  then show ?thesis unfolding round_mag_def u by (simp add: mult_right_mono)
next
  case False
  then have lt: "expo f x < expo f y" using expo_mono [OF assms, of f] by simp
  have y: "0 < y" using assms by simp
  have "emin f \<le> expo f x" by (simp add: expo_def)
  then have "emin f < expo f y" using lt by simp
  then have "emin f \<le> exponent y" by (simp add: expo_def)
  then have "2 powi (expo f y) \<le> round_mag f y" by (rule round_mag_lower [OF y])
  moreover have "(2::real) powi (expo f x + 1) \<le> 2 powi (expo f y)"
    by (rule pow2_mono) (use lt in simp)
  ultimately show ?thesis using round_mag_upper [OF assms(1), of f] by linarith
qed

text \<open>
  A number with a significand of no more bits than the format has, at an exponent the
  format has, is a value of the format: it rounds to itself.
\<close>

lemma round_mag_exact:
  assumes x: "x = of_int m * 2 powi j" and m: "0 < m" "m < 2 ^ precision f"
    and j: "emin f - int (precision f) + 1 \<le> j"
  shows "round_mag f x = x"
proof -
  let ?P = "int (precision f)"
  let ?k = "expo f x - ?P + 1"
  have pos: "0 < x" using x m by simp
  have "real_of_int m < 2 powi ?P"
    using m(2) by (metis of_int_less_iff of_int_numeral of_int_power power_int_of_nat)
  then have "x < 2 powi ?P * 2 powi j" using x by simp
  then have "x < 2 powi (?P + j)" by (simp add: pow2_split)
  moreover have "2 powi exponent x \<le> x" using exponent_bounds [OF pos] by simp
  ultimately have "(2::real) powi exponent x < 2 powi (?P + j)" by linarith
  then have "exponent x < ?P + j" by (rule pow2_less_cancel)
  then have k: "?k \<le> j" using j by (simp add: expo_def)
  have "x / ulp f x = of_int m * 2 powi (j - ?k)"
    unfolding ulp_expo x by (simp add: pow2_diff)
  also have "(2::real) powi (j - ?k) = of_int (2 ^ nat (j - ?k))"
    using k by (simp add: power_int_def)
  finally have "x / ulp f x = of_int (m * 2 ^ nat (j - ?k))" by simp
  then have "rne (x / ulp f x) = m * 2 ^ nat (j - ?k)" by (simp only: rne_of_int)
  then have "round_mag f x = of_int (m * 2 ^ nat (j - ?k)) * ulp f x"
    by (simp add: round_mag_def)
  also have "\<dots> = x / ulp f x * ulp f x"
    using \<open>x / ulp f x = of_int (m * 2 ^ nat (j - ?k))\<close> by simp
  finally show ?thesis by simp
qed
lemma huge_pos [simp]: "0 < huge f"
  by (simp add: huge_def)

lemma sign_mag_simps [simp]:
  "is_finite (sign_mag s m)" "sign_mag s m \<noteq> NaN" "sign_mag s m \<noteq> PInf" "sign_mag s m \<noteq> NInf"
  "0 \<le> m \<Longrightarrow> val_of (sign_mag s m) = (if s then - m else m)"
  by (simp_all add: sign_mag_def)

lemma rsigned_mono:
  assumes "x \<le> y" shows "rsigned f x \<le> rsigned f y"
proof -
  consider "y < 0" | "x < 0" "0 \<le> y" | "0 \<le> x" by linarith
  then show ?thesis
  proof cases
    case 1
    then have "round_mag f (- y) \<le> round_mag f (- x)"
      using assms by (intro round_mag_mono) simp_all
    then show ?thesis using 1 assms by (simp add: rsigned_def)
  next
    case 2
    have "0 \<le> round_mag f (- x)" using 2 by (intro round_mag_nonneg) simp
    moreover have "0 \<le> round_mag f y" if "0 < y" using that by (rule round_mag_nonneg)
    ultimately show ?thesis using 2 by (cases "y = 0") (simp_all add: rsigned_def)
  next
    case 3
    show ?thesis
    proof (cases "x = 0")
      case True
      then show ?thesis using assms round_mag_nonneg [of y f] by (simp add: rsigned_def)
    next
      case False
      then have "0 < x" using 3 by simp
      then show ?thesis using assms round_mag_mono [of x y f] by (simp add: rsigned_def)
    qed
  qed
qed

text \<open>
  What a rounding can be: an infinity, when the number is out of range, or the finite
  value of the rounded number. It is monotone in the order of the C comparison.
\<close>

lemma fround_view:
  "(fround f s x = NInf \<and> rsigned f x \<le> - huge f) \<or>
   (fround f s x = PInf \<and> huge f \<le> rsigned f x) \<or>
   (is_finite (fround f s x) \<and> val_of (fround f s x) = rsigned f x \<and>
    - huge f < rsigned f x \<and> rsigned f x < huge f \<and>
    sign_bit (fround f s x) = (if x = 0 then s else x < 0))"
proof -
  consider "x = 0" | "x < 0" | "0 < x" by linarith
  then show ?thesis
  proof cases
    case 1
    then show ?thesis by (simp add: fround_def rsigned_def sign_mag_def)
  next
    case 2
    then have "0 \<le> round_mag f (- x)" by (intro round_mag_nonneg) simp
    then show ?thesis using 2
      by (auto simp add: fround_def rsigned_def Let_def inf_of_def huge_def sign_mag_def)
  next
    case 3
    then have "0 \<le> round_mag f x" by (intro round_mag_nonneg) simp
    then show ?thesis using 3
      by (auto simp add: fround_def rsigned_def Let_def inf_of_def huge_def sign_mag_def)
  qed
qed

lemma fround_not_nan [simp]: "fround f s x \<noteq> NaN"
  using fround_view [of f s x] by auto

lemma fround_mono:
  assumes "x \<le> y" shows "fle (fround f s x) (fround f t y)"
proof -
  have r: "rsigned f x \<le> rsigned f y" using assms by (rule rsigned_mono)
  have h: "0 < huge f" by simp
  show ?thesis
    using fround_view [of f s x] fround_view [of f t y] r h
    by (cases "fround f s x"; cases "fround f t y") auto
qed
lemma rsigned_exact:
  assumes x: "x = of_int m * 2 powi j" and m: "\<bar>m\<bar> < 2 ^ precision f"
    and j: "emin f - int (precision f) + 1 \<le> j"
  shows "rsigned f x = x"
proof -
  consider "m = 0" | "0 < m" | "m < 0" by linarith
  then show ?thesis
  proof cases
    case 1
    then show ?thesis using x by (simp add: rsigned_def)
  next
    case 2
    then have "0 < x" using x by simp
    moreover have "round_mag f x = x"
      using x 2 m j by (intro round_mag_exact [of x m j]) simp_all
    ultimately show ?thesis by (simp add: rsigned_def)
  next
    case 3
    then have "x < 0" using x by (simp add: mult_neg_pos)
    moreover have "round_mag f (- x) = - x"
      using x 3 m j by (intro round_mag_exact [of "- x" "- m" j]) simp_all
    ultimately show ?thesis by (simp add: rsigned_def)
  qed
qed

lemma format_range [simp]:
  "emin f - int (precision f) + 1 \<le> 0" "0 \<le> emax f" "int (precision f) \<le> emax f + 1"
  by (cases f; simp)+

lemma rsigned_pow2:
  "emin f - int (precision f) + 1 \<le> k \<Longrightarrow> rsigned f (2 powi k) = 2 powi k"
  "emin f - int (precision f) + 1 \<le> k \<Longrightarrow> rsigned f (- (2 powi k)) = - (2 powi k)"
  using rsigned_exact [of "2 powi k" 1 k f] rsigned_exact [of "- (2 powi k)" "- 1" k f]
  by simp_all

lemma rsigned_0 [simp]: "rsigned f 0 = 0"
  by (simp add: rsigned_def)

lemma rsigned_1 [simp]: "rsigned f 1 = 1"
  using rsigned_pow2 (1) [of f 0] by simp

lemma rsigned_bounded:
  assumes "\<bar>x\<bar> \<le> 2 powi k" "emin f - int (precision f) + 1 \<le> k"
  shows "\<bar>rsigned f x\<bar> \<le> 2 powi k"
proof -
  have "rsigned f x \<le> rsigned f (2 powi k)" using assms(1) by (intro rsigned_mono) simp
  moreover have "rsigned f (- (2 powi k)) \<le> rsigned f x" using assms(1) by (intro rsigned_mono) simp
  ultimately show ?thesis using rsigned_pow2 [OF assms(2)] by simp
qed

lemma fround_bounded:
  assumes "\<bar>x\<bar> \<le> 2 powi k" "emin f - int (precision f) + 1 \<le> k" "k \<le> emax f"
  shows "is_finite (fround f s x) \<and> val_of (fround f s x) = rsigned f x"
proof -
  have "\<bar>rsigned f x\<bar> \<le> 2 powi k" using assms(1,2) by (rule rsigned_bounded)
  moreover have "(2::real) powi k < huge f"
    unfolding huge_def using assms(3) by (intro power_int_strict_increasing) simp_all
  ultimately have "- huge f < rsigned f x \<and> rsigned f x < huge f" by linarith
  then show ?thesis using fround_view [of f s x] by auto
qed

lemma fround_exact:
  assumes x: "x = of_int m * 2 powi j" and m: "m \<noteq> 0" "\<bar>m\<bar> < 2 ^ precision f"
    and j: "emin f - int (precision f) + 1 \<le> j" "j + int (precision f) \<le> emax f + 1"
  shows "fround f s x = Fin x"
proof -
  have r: "rsigned f x = x" using x m(2) j(1) by (rule rsigned_exact)
  have "real_of_int \<bar>m\<bar> < 2 powi int (precision f)"
    using m(2) by (metis of_int_less_iff of_int_numeral of_int_power power_int_of_nat)
  then have "\<bar>x\<bar> < 2 powi int (precision f) * 2 powi j"
    unfolding x by (simp add: abs_mult)
  also have "\<dots> = 2 powi (int (precision f) + j)" by (simp only: pow2_split)
  also have "\<dots> \<le> huge f" unfolding huge_def using j(2) by (intro pow2_mono) simp
  finally have "- huge f < rsigned f x \<and> rsigned f x < huge f" using r by linarith
  then have v: "is_finite (fround f s x) \<and> val_of (fround f s x) = x"
    using fround_view [of f s x] r by auto
  have "x \<noteq> 0" using x m(1) by simp
  then show ?thesis using v by (cases "fround f s x") simp_all
qed

lemma fround_0 [simp]: "fround f s 0 = (if s then NZero else Fin 0)"
  by (simp add: fround_def sign_mag_def)

lemma fround_of_int:
  assumes "n \<noteq> 0" "\<bar>n\<bar> < 2 ^ precision f"
  shows "fround f s (of_int n) = Fin (of_int n)"
  using assms by (intro fround_exact [of _ n 0]) simp_all

lemma fle_refl: "a \<noteq> NaN \<Longrightarrow> fle a a"
  by (cases a) simp_all

text \<open>
  The operations of the progress calculation are monotone in their first operand: the
  division by a positive number, the subtraction of a finite number, the conversion
  and the clamp.
\<close>

lemma fle_cases:
  "fle a b \<Longrightarrow> (a = NInf \<and> b \<noteq> NaN) \<or> (b = PInf \<and> a \<noteq> NaN) \<or>
     (is_finite a \<and> is_finite b \<and> val_of a \<le> val_of b)"
  by (cases a; cases b) simp_all

lemma fle_NInf: "b \<noteq> NaN \<Longrightarrow> fle NInf b"
  by (cases b) simp_all

lemma fle_PInf: "a \<noteq> NaN \<Longrightarrow> fle a PInf"
  by (cases a) simp_all

lemma finite_not_special:
  "is_finite b \<Longrightarrow> b \<noteq> NaN \<and> \<not> is_inf b \<and> b \<noteq> NInf \<and> b \<noteq> PInf"
  by (cases b) simp_all

lemma positive_sign: "is_finite b \<Longrightarrow> 0 < val_of b \<Longrightarrow> \<not> sign_bit b"
  by (cases b) simp_all

lemma fdiv_finite:
  "is_finite a \<Longrightarrow> is_finite b \<Longrightarrow> val_of b \<noteq> 0 \<Longrightarrow>
   fdiv f a b = fround f (sign_bit a \<noteq> sign_bit b) (val_of a / val_of b)"
  using finite_not_special [of a] finite_not_special [of b] by (simp add: fdiv_def Let_def)

lemma fdiv_inf:
  "is_finite b \<Longrightarrow> 0 < val_of b \<Longrightarrow> fdiv f NInf b = NInf"
  "is_finite b \<Longrightarrow> 0 < val_of b \<Longrightarrow> fdiv f PInf b = PInf"
  using finite_not_special [of b] positive_sign [of b] by (simp_all add: fdiv_def Let_def inf_of_def)

lemma fdiv_not_nan:
  "a \<noteq> NaN \<Longrightarrow> is_finite b \<Longrightarrow> val_of b \<noteq> 0 \<Longrightarrow> fdiv f a b \<noteq> NaN"
  using finite_not_special [of b] by (simp add: fdiv_def Let_def inf_of_def)

lemma fdiv_mono:
  assumes "fle a1 a2" "is_finite b" "0 < val_of b"
  shows "fle (fdiv f a1 b) (fdiv f a2 b)"
proof -
  have nz: "val_of b \<noteq> 0" using assms(3) by simp
  consider "a1 = NInf" "a2 \<noteq> NaN" | "a2 = PInf" "a1 \<noteq> NaN"
    | "is_finite a1" "is_finite a2" "val_of a1 \<le> val_of a2"
    using fle_cases [OF assms(1)] by blast
  then show ?thesis
  proof cases
    case 1
    then show ?thesis
      using fdiv_inf(1) [OF assms(2,3)] fdiv_not_nan [OF 1(2) assms(2) nz] by (simp add: fle_NInf)
  next
    case 2
    then show ?thesis
      using fdiv_inf(2) [OF assms(2,3)] fdiv_not_nan [OF 2(2) assms(2) nz] by (simp add: fle_PInf)
  next
    case 3
    have "val_of a1 / val_of b \<le> val_of a2 / val_of b"
      using 3(3) assms(3) by (simp add: divide_right_mono)
    then show ?thesis
      by (simp only: fdiv_finite [OF 3(1) assms(2) nz] fdiv_finite [OF 3(2) assms(2) nz] fround_mono)
  qed
qed

lemma fsub_finite:
  "is_finite a \<Longrightarrow> is_finite b \<Longrightarrow>
   fsub f a b = fround f (sign_bit a \<and> \<not> sign_bit b) (val_of a - val_of b)"
  using finite_not_special [of a] finite_not_special [of b] by (simp add: fsub_def)

lemma fsub_inf:
  "is_finite b \<Longrightarrow> fsub f NInf b = NInf"
  "is_finite b \<Longrightarrow> fsub f PInf b = PInf"
  using finite_not_special [of b] by (simp_all add: fsub_def)

lemma fsub_not_nan:
  "a \<noteq> NaN \<Longrightarrow> is_finite b \<Longrightarrow> fsub f a b \<noteq> NaN"
  using finite_not_special [of b] by (simp add: fsub_def inf_of_def)

lemma fsub_mono:
  assumes "fle a1 a2" "is_finite b"
  shows "fle (fsub f a1 b) (fsub f a2 b)"
proof -
  consider "a1 = NInf" "a2 \<noteq> NaN" | "a2 = PInf" "a1 \<noteq> NaN"
    | "is_finite a1" "is_finite a2" "val_of a1 \<le> val_of a2"
    using fle_cases [OF assms(1)] by blast
  then show ?thesis
  proof cases
    case 1
    then show ?thesis
      using fsub_inf(1) [OF assms(2)] fsub_not_nan [OF 1(2) assms(2)] by (simp add: fle_NInf)
  next
    case 2
    then show ?thesis
      using fsub_inf(2) [OF assms(2)] fsub_not_nan [OF 2(2) assms(2)] by (simp add: fle_PInf)
  next
    case 3
    have "val_of a1 - val_of b \<le> val_of a2 - val_of b" using 3(3) by simp
    then show ?thesis
      by (simp only: fsub_finite [OF 3(1) assms(2)] fsub_finite [OF 3(2) assms(2)] fround_mono)
  qed
qed

lemma convert_not_nan: "a \<noteq> NaN \<Longrightarrow> convert f a \<noteq> NaN"
  by (simp add: convert_def)

lemma convert_mono:
  assumes "fle a1 a2"
  shows "fle (convert f a1) (convert f a2)"
proof -
  consider "a1 = NInf" "a2 \<noteq> NaN" | "a2 = PInf" "a1 \<noteq> NaN"
    | "is_finite a1" "is_finite a2" "val_of a1 \<le> val_of a2"
    using fle_cases [OF assms(1)] by blast
  then show ?thesis
  proof cases
    case 1
    then show ?thesis using convert_not_nan [OF 1(2), of f] by (simp add: convert_def fle_NInf)
  next
    case 2
    then show ?thesis using convert_not_nan [OF 2(2), of f] by (simp add: convert_def fle_PInf)
  next
    case 3
    then show ?thesis by (simp add: convert_def fround_mono)
  qed
qed

lemma clamp_cases:
  "FFMAX (Fin 0) (FFMIN (Fin 1) v) =
     (case v of NaN \<Rightarrow> Fin 1 | NInf \<Rightarrow> Fin 0 | PInf \<Rightarrow> Fin 1 | NZero \<Rightarrow> NZero
      | Fin x \<Rightarrow> if x < 0 then Fin 0 else if x < 1 then Fin x else Fin 1)"
  by (cases v) (simp_all add: FFMAX_def FFMIN_def)

lemma in_unit_simps [simp]:
  "in_unit (Fin x) = (0 \<le> x \<and> x \<le> 1)" "in_unit NZero"
  "\<not> in_unit NaN" "\<not> in_unit PInf" "\<not> in_unit NInf"
  by (simp_all add: in_unit_def)

lemma clamp_in_unit: "in_unit (FFMAX (Fin 0) (FFMIN (Fin 1) v))"
  by (cases v) (simp_all add: clamp_cases in_unit_def)

lemma clamp_mono:
  "fle a1 a2 \<Longrightarrow> fle (FFMAX (Fin 0) (FFMIN (Fin 1) a1)) (FFMAX (Fin 0) (FFMIN (Fin 1) a2))"
  by (cases a1; cases a2) (simp_all add: clamp_cases)

lemma convert_in_unit:
  assumes "in_unit v" shows "in_unit (convert f v)"
proof -
  have v: "is_finite v" "0 \<le> val_of v" "val_of v \<le> 1" using assms by (simp_all add: in_unit_def)
  have "rsigned f 0 \<le> rsigned f (val_of v)" "rsigned f (val_of v) \<le> rsigned f 1"
    using v by (intro rsigned_mono; simp)+
  then have r: "0 \<le> rsigned f (val_of v)" "rsigned f (val_of v) \<le> 1" by simp_all
  have "\<bar>val_of v\<bar> \<le> 2 powi 0" using v by simp
  then have "is_finite (fround f (sign_bit v) (val_of v)) \<and>
      val_of (fround f (sign_bit v) (val_of v)) = rsigned f (val_of v)"
    by (rule fround_bounded) simp_all
  then show ?thesis using v(1) r by (simp add: convert_def in_unit_def)
qed

lemma frame_progress_in_unit: "in_unit (frame_progress p den off dur)"
  unfolding frame_progress_def by (intro convert_in_unit clamp_in_unit)
text \<open>Rounding a given number, once its exponent is known.\<close>

lemma round_mag_normal:
  assumes "2 powi k \<le> x" "x < 2 powi (k + 1)" "emin f \<le> k"
  shows "round_mag f x =
     of_int (rne (x / 2 powi (k - int (precision f) + 1))) * 2 powi (k - int (precision f) + 1)"
  using exponent_eq [OF assms(1,2)] assms(3) by (simp add: round_mag_def ulp_def max_def)

lemma round_mag_subnormal:
  assumes "0 < x" "x < 2 powi (emin f)"
  shows "round_mag f x =
     of_int (rne (x / 2 powi (emin f - int (precision f) + 1))) * 2 powi (emin f - int (precision f) + 1)"
proof -
  have "2 powi exponent x \<le> x" using exponent_bounds [OF assms(1)] by simp
  then have "(2::real) powi exponent x < 2 powi (emin f)" using assms(2) by linarith
  then have "exponent x < emin f" by (rule pow2_less_cancel)
  then show ?thesis by (simp add: round_mag_def ulp_def max_def)
qed

lemma fround_numeral:
  "numeral n < (2::int) ^ precision f \<Longrightarrow> fround f s (numeral n) = Fin (numeral n)"
  "numeral n < (2::int) ^ precision f \<Longrightarrow> fround f s (- numeral n) = Fin (- numeral n)"
  using fround_of_int [of "numeral n" f s] fround_of_int [of "- numeral n" f s] by simp_all

lemma fround_1: "fround f s 1 = Fin 1" "fround f s (- 1) = Fin (- 1)"
  using fround_of_int [of 1 f s] fround_of_int [of "- 1" f s] by simp_all

lemma fround_two_fifths: "fround Binary32 s (2 / 5) = Fin (13421773 / 33554432)"
  using round_mag_normal [of "- 2" "2 / 5" Binary32]
  by (simp add: fround_def rne_def sign_mag_def inf_of_def Let_def)

lemma fround_four_fifths: "fround Binary32 s (4 / 5) = Fin (13421773 / 16777216)"
  using round_mag_normal [of "- 1" "4 / 5" Binary32]
  by (simp add: fround_def rne_def sign_mag_def inf_of_def Let_def)

lemma fround_dyadic:
  "fround f s (13421773 / 33554432) = Fin (13421773 / 33554432)"
  "fround f s (13421773 / 16777216) = Fin (13421773 / 16777216)"
  using fround_exact [of "13421773 / 33554432" 13421773 "- 25" f s]
    fround_exact [of "13421773 / 16777216" 13421773 "- 24" f s]
  by (cases f; simp)+

lemma fround_odd_integers:
  "fround Binary32 s 16777217 = Fin 16777216"
  "fround Binary32 s 324000001 = Fin 324000000"
  using round_mag_normal [of 24 16777217 Binary32] round_mag_normal [of 28 324000001 Binary32]
  by (simp_all add: fround_def rne_def sign_mag_def inf_of_def Let_def)

lemma fround_pow24: "fround f s 16777216 = Fin 16777216"
  using fround_exact [of 16777216 1 24 f s] by (cases f) simp_all

lemma fround_tiny:
  "fround Binary64 s (- (2 powi (- 200))) = Fin (- (2 powi (- 200)))"
  "fround Binary32 s (- (2 powi (- 200))) = NZero"
  using fround_exact [of "- (2 powi (- 200))" "- 1" "- 200" Binary64 s]
    round_mag_subnormal [of "2 powi (- 200)" Binary32]
  by (simp_all add: fround_def rne_def sign_mag_def inf_of_def Let_def)

lemma fround_small_difference:
  "fround f s (- (1 / 131072)) = Fin (- (1 / 131072))"
  using fround_exact [of "- (1 / 131072)" "- 1" "- 17" f s]
  by (cases f) simp_all

section \<open>The progress value\<close>

lemmas progress_defs =
  frame_progress_def frame_ts_def float_of_int_def fdiv_def fsub_def convert_def
  FFMAX_def FFMIN_def Let_def sign_mag_def inf_of_def fround_numeral fround_1

text \<open>
  A timestamp and a positive denominator convert to finite values, the denominator
  to 1 at least, and their quotient is finite and monotone in the timestamp.
\<close>

lemma float_of_int_bounded:
  assumes "\<bar>n\<bar> \<le> 2 ^ 63"
  shows "is_finite (float_of_int n) \<and> \<bar>val_of (float_of_int n)\<bar> \<le> 2 powi 63 \<and>
    val_of (float_of_int n) = rsigned Binary32 (of_int n)"
proof -
  have "\<bar>real_of_int n\<bar> \<le> 2 ^ 63"
    using assms by (metis of_int_abs of_int_le_iff of_int_numeral of_int_power)
  then have a: "\<bar>real_of_int n\<bar> \<le> 2 powi 63" by simp
  have "is_finite (fround Binary32 False (of_int n)) \<and>
        val_of (fround Binary32 False (of_int n)) = rsigned Binary32 (of_int n)"
    using a by (rule fround_bounded) simp_all
  moreover have "\<bar>rsigned Binary32 (of_int n)\<bar> \<le> 2 powi 63"
    using a by (rule rsigned_bounded) simp
  ultimately show ?thesis by (simp add: float_of_int_def)
qed

lemma float_of_pts:
  fixes p :: "64 word"
  shows "is_finite (float_of_int (sint p))" "\<bar>val_of (float_of_int (sint p))\<bar> \<le> 2 powi 63"
proof -
  have "- (2 ^ 63) \<le> sint p" "sint p < 2 ^ 63"
    using sint_ge [of p] sint_lt [of p] by simp_all
  then have "\<bar>sint p\<bar> \<le> 2 ^ 63" by simp
  then show "is_finite (float_of_int (sint p))" "\<bar>val_of (float_of_int (sint p))\<bar> \<le> 2 powi 63"
    using float_of_int_bounded [of "sint p"] by blast+
qed

lemma float_of_den:
  fixes den :: "32 word"
  assumes "0 < sint den"
  shows "is_finite (float_of_int (sint den))" "1 \<le> val_of (float_of_int (sint den))"
proof -
  have "sint den < 2 ^ 31" using sint_lt [of den] by simp
  then have "\<bar>sint den\<bar> \<le> 2 ^ 63" using assms by simp
  then have f: "is_finite (float_of_int (sint den)) \<and>
     val_of (float_of_int (sint den)) = rsigned Binary32 (of_int (sint den))"
    using float_of_int_bounded [of "sint den"] by blast
  have "(1::real) \<le> real_of_int (sint den)"
    using assms by (simp only: of_int_1_le_iff)
  then have "rsigned Binary32 1 \<le> rsigned Binary32 (real_of_int (sint den))"
    by (rule rsigned_mono)
  then show "is_finite (float_of_int (sint den))" "1 \<le> val_of (float_of_int (sint den))"
    using f by (simp_all del: of_int_sint)
qed

lemma quotient_finite:
  fixes p :: "64 word" and den :: "32 word"
  assumes "0 < sint den"
  shows "is_finite (fdiv Binary32 (float_of_int (sint p)) (float_of_int (sint den)))"
proof -
  let ?a = "float_of_int (sint p)" and ?b = "float_of_int (sint den)"
  note b = float_of_den [OF assms]
  note a = float_of_pts [of p]
  have nz: "val_of ?b \<noteq> 0" using b(2) by simp
  have "\<bar>val_of ?a\<bar> / val_of ?b \<le> \<bar>val_of ?a\<bar> / 1"
    using b(2) by (intro divide_left_mono) simp_all
  then have "\<bar>val_of ?a / val_of ?b\<bar> \<le> \<bar>val_of ?a\<bar>"
    using b(2) by simp
  then have "\<bar>val_of ?a / val_of ?b\<bar> \<le> 2 powi 63" using a(2) by linarith
  then have "is_finite (fround Binary32 (sign_bit ?a \<noteq> sign_bit ?b) (val_of ?a / val_of ?b))"
    using fround_bounded [of "val_of ?a / val_of ?b" 63 Binary32] by simp
  then show ?thesis by (simp only: fdiv_finite [OF a(1) b(1) nz])
qed

lemma quotient_mono:
  fixes p1 p2 :: "64 word" and den :: "32 word"
  assumes "0 < sint den" "sint p1 \<le> sint p2"
  shows "fle (fdiv Binary32 (float_of_int (sint p1)) (float_of_int (sint den)))
             (fdiv Binary32 (float_of_int (sint p2)) (float_of_int (sint den)))"
proof -
  have "fle (float_of_int (sint p1)) (float_of_int (sint p2))"
    unfolding float_of_int_def using assms(2) by (intro fround_mono) (simp only: of_int_le_iff)
  moreover have "0 < val_of (float_of_int (sint den))"
    using float_of_den(2) [OF assms(1)] by simp
  ultimately show ?thesis using float_of_den(1) [OF assms(1)] by (intro fdiv_mono)
qed

lemma fsub_not_finite:
  "is_finite a \<Longrightarrow> \<not> is_finite b \<Longrightarrow>
   fsub f a b = (if b = NaN then NaN else inf_of (\<not> sign_bit b))"
  by (cases a; cases b) (simp_all add: fsub_def)

lemma frame_ts_mono:
  fixes p1 p2 :: "64 word" and den :: "32 word"
  assumes "0 < sint den" "sint p1 \<le> sint p2"
  shows "fle (frame_ts p1 den off) (frame_ts p2 den off) \<or>
         frame_ts p1 den off = frame_ts p2 den off"
proof (cases "is_finite off")
  case True
  then show ?thesis
    unfolding frame_ts_def
    by (intro disjI1 convert_mono fsub_mono quotient_mono assms)
next
  case False
  then show ?thesis
    unfolding frame_ts_def
    by (simp only: fsub_not_finite [OF quotient_finite [OF assms(1)] False] simp_thms)
qed

lemma created_append: "created (xs @ ys) = created xs @ created ys"
  by (induction xs rule: created.induct) simp_all

lemma released_append: "released (xs @ ys) = released xs @ released ys"
  by (induction xs rule: released.induct) simp_all

lemma bad_releases_append: "bad_releases (xs @ ys) = bad_releases xs @ bad_releases ys"
  by (induction xs rule: bad_releases.induct) simp_all

lemma uniform_values_append: "uniform_values (xs @ ys) = uniform_values xs @ uniform_values ys"
  by (induction xs rule: uniform_values.induct) simp_all

lemmas trace_appends = created_append released_append bad_releases_append uniform_values_append

text \<open>
  Two timestamps at 25 units per second, offset 0 and duration 1: the quotients
  \<open>10 / 25\<close> and \<open>20 / 25\<close> are no values of \<^verbatim>\<open>float\<close>, and the progress is the
  \<^verbatim>\<open>float\<close> next to each (\<^verbatim>\<open>0x3ecccccd\<close> and \<^verbatim>\<open>0x3f4ccccd\<close>).
\<close>

lemma progress_at_25_units_per_second:
  "frame_progress 10 25 (Fin 0) (Fin 1) = Fin (13421773 / 33554432)"
  "frame_progress 20 25 (Fin 0) (Fin 1) = Fin (13421773 / 16777216)"
  by (simp_all add: progress_defs fround_two_fifths fround_four_fifths fround_dyadic)

text \<open>
  Claim C1. Whenever the duration is positive, the progress computed from a frame's
  timestamp, rounded as \<^verbatim>\<open>filter_frame\<close> rounds it, lies in the closed unit interval,
  for every timestamp, denominator and offset; and it is this value, once per frame,
  that \<^verbatim>\<open>filter_frame\<close> passes to \<^verbatim>\<open>glUniform1f\<close> (no value at all when the output
  buffer cannot be allocated). The bound does not depend on the duration:
  \<open>frame_progress_in_unit\<close> has it for every duration.
\<close>

theorem progress_uniform_in_unit_interval:
  assumes "fgt (duration (priv w)) (Fin 0)"
  shows "in_unit (frame_progress (pts frame) den (offset (priv w)) (duration (priv w))) \<and>
         uniform_values (trace (snd (snd (filter_frame e den frame w)))) =
           uniform_values (trace w) @
           (if get_video_buffer_ok e
            then [frame_progress (pts frame) den (offset (priv w)) (duration (priv w))]
            else [])"
  by (simp add: frame_progress_in_unit filter_frame_def Let_def emit_def trace_appends)

theorem progress_uniform_in_unit_interval_witness:
  "uniform_values (trace (snd (snd (filter_frame sample_env 25 \<lparr>pts = 10, data = []\<rparr>
      (fresh_world (Fin 1) (Fin 0) None))))) = [Fin (13421773 / 33554432)] \<and>
   in_unit (Fin (13421773 / 33554432))"
proof -
  have d: "fgt (duration (priv (fresh_world (Fin 1) (Fin 0) None))) (Fin 0)"
    by (simp add: fresh_world_def)
  show ?thesis
    using progress_uniform_in_unit_interval
      [OF d, where frame = "\<lparr>pts = 10, data = []\<rparr>" and den = 25 and e = sample_env]
    by (simp add: fresh_world_def sample_env_def progress_at_25_units_per_second)
qed

text \<open>
  Claim C2, as amended. With a duration of zero the division is not guarded. Its
  result is an infinity or a NaN, which the clamp turns into 0 or 1 according to the
  elapsed time \<^verbatim>\<open>ts\<close> as the code has it, a \<^verbatim>\<open>float\<close>: with the positive zero as
  duration the progress is 0 when \<^verbatim>\<open>ts\<close> is negative and 1 otherwise, also when
  \<^verbatim>\<open>ts\<close> is a zero of either sign or a NaN; with the negative zero it is 0 when \<^verbatim>\<open>ts\<close>
  is positive and 1 otherwise. Whatever the duration, zero and negative included, the
  value passed is in the unit interval, never an infinity or a NaN.
\<close>

theorem zero_duration_progress:
  "frame_progress p den off (Fin 0) =
     (case frame_ts p den off of
        NaN \<Rightarrow> Fin 1 | NInf \<Rightarrow> Fin 0 | Fin x \<Rightarrow> (if x < 0 then Fin 0 else Fin 1)
      | NZero \<Rightarrow> Fin 1 | PInf \<Rightarrow> Fin 1) \<and>
   frame_progress p den off NZero =
     (case frame_ts p den off of
        NaN \<Rightarrow> Fin 1 | NInf \<Rightarrow> Fin 1 | Fin x \<Rightarrow> (if 0 < x then Fin 0 else Fin 1)
      | NZero \<Rightarrow> Fin 1 | PInf \<Rightarrow> Fin 0) \<and>
   in_unit (frame_progress p den off dur)"
proof -
  have "frame_progress p den off (Fin 0) =
     (case frame_ts p den off of
        NaN \<Rightarrow> Fin 1 | NInf \<Rightarrow> Fin 0 | Fin x \<Rightarrow> (if x < 0 then Fin 0 else Fin 1)
      | NZero \<Rightarrow> Fin 1 | PInf \<Rightarrow> Fin 1)"
    by (cases "frame_ts p den off")
       (simp_all add: frame_progress_def fdiv_def convert_def
          FFMAX_def FFMIN_def Let_def sign_mag_def inf_of_def fround_1)
  moreover have "frame_progress p den off NZero =
     (case frame_ts p den off of
        NaN \<Rightarrow> Fin 1 | NInf \<Rightarrow> Fin 1 | Fin x \<Rightarrow> (if 0 < x then Fin 0 else Fin 1)
      | NZero \<Rightarrow> Fin 1 | PInf \<Rightarrow> Fin 0)"
    by (cases "frame_ts p den off")
       (simp_all add: frame_progress_def fdiv_def convert_def
          FFMAX_def FFMIN_def Let_def sign_mag_def inf_of_def fround_1)
  ultimately show ?thesis by (simp only: frame_progress_in_unit simp_thms)
qed

text \<open>
  The claim as stated fails: with a duration of zero, a frame one second before the
  offset has progress 0, not 1.
\<close>

theorem zero_duration_negative_elapsed_time:
  "frame_progress (- 1) 1 (Fin 0) (Fin 0) = Fin 0 \<and>
   frame_progress (- 1) 1 (Fin 0) (Fin 0) \<noteq> Fin 1"
  by (simp add: progress_defs)

text \<open>
  The elapsed time that decides is the rounded one. An offset of \<open>2 ^ - 200\<close> seconds
  puts the first frame before the offset, but the difference is below the least
  \<^verbatim>\<open>float\<close> and \<^verbatim>\<open>ts\<close> is the negative zero: the progress is 1. At 90000 units per
  second the timestamp 324000001 is no \<^verbatim>\<open>float\<close>; it is taken for 324000000, one
  hour, so that with an offset of one hour and \<open>2 ^ - 17\<close> seconds the frame counts as
  before the offset although it lies after it: the progress is 0. With the negative
  zero as duration a frame after the offset has progress 0, and so it has with a
  negative duration.
\<close>

lemma zero_duration_examples:
  "frame_ts 0 1 (Fin (2 powi (- 200))) = NZero"
  "frame_progress 0 1 (Fin (2 powi (- 200))) (Fin 0) = Fin 1"
  "frame_ts 324000001 90000 (Fin (3600 + 1 / 131072)) = Fin (- (1 / 131072))"
  "frame_progress 324000001 90000 (Fin (3600 + 1 / 131072)) (Fin 0) = Fin 0"
  "frame_progress 1 1 (Fin 0) NZero = Fin 0"
  "frame_progress 1 1 (Fin 0) (Fin (- 1)) = Fin 0"
  by (simp_all add: progress_defs fround_tiny [simplified] fround_odd_integers
      fround_small_difference)

text \<open>
  Claim C3. With a duration of 1, an offset of 0 and a denominator of 1, the timestamps
  0, 1 and 2 give the progress 0, 1 and 1.
\<close>

theorem progress_at_unit_duration:
  "frame_progress 0 1 (Fin 0) (Fin 1) = Fin 0 \<and> frame_progress 1 1 (Fin 0) (Fin 1) = Fin 1 \<and>
   frame_progress 2 1 (Fin 0) (Fin 1) = Fin 1"
  by (simp add: progress_defs)

text \<open>
  Claim C4. For a positive denominator, any offset and a positive duration, the
  progress does not decrease when the timestamp grows: every step of the calculation
  is monotone, the roundings included.
\<close>

theorem progress_monotone_in_pts:
  fixes p1 p2 :: "64 word" and den :: "32 word"
  assumes "0 < sint den" "0 < d" "sint p1 \<le> sint p2"
  shows "fle (frame_progress p1 den off (Fin d)) (frame_progress p2 den off (Fin d))"
proof -
  consider "fle (frame_ts p1 den off) (frame_ts p2 den off)"
    | "frame_ts p1 den off = frame_ts p2 den off"
    using frame_ts_mono [OF assms(1,3)] by blast
  then show ?thesis
  proof cases
    case 1
    then show ?thesis
      unfolding frame_progress_def using assms(2)
      by (intro convert_mono clamp_mono fdiv_mono) simp_all
  next
    case 2
    have "frame_progress p1 den off (Fin d) \<noteq> NaN"
      using frame_progress_in_unit [of p1 den off "Fin d"] by (auto simp add: in_unit_def)
    then have "fle (frame_progress p1 den off (Fin d)) (frame_progress p1 den off (Fin d))"
      by (rule fle_refl)
    then show ?thesis using 2 by (simp add: frame_progress_def)
  qed
qed

theorem progress_monotone_in_pts_witness:
  "0 < sint (25 :: 32 word) \<and> (0 :: real) < 1 \<and> sint (10 :: 64 word) \<le> sint (20 :: 64 word) \<and>
   fle (frame_progress 10 25 (Fin 0) (Fin 1)) (frame_progress 20 25 (Fin 0) (Fin 1)) \<and>
   frame_progress 10 25 (Fin 0) (Fin 1) = Fin (13421773 / 33554432) \<and>
   frame_progress 20 25 (Fin 0) (Fin 1) = Fin (13421773 / 16777216)"
  using progress_monotone_in_pts [of 25 1 10 20 "Fin 0"]
  by (simp add: progress_at_25_units_per_second)

text \<open>
  Rounding makes the progress a step function of the timestamp: next to
  \<open>2 ^ 24\<close> two timestamps one unit apart are the same \<^verbatim>\<open>float\<close>, and the frame after
  the offset has the progress of the frame at the offset.
\<close>

lemma progress_of_neighbouring_timestamps:
  "frame_progress 16777216 1 (Fin 16777216) (Fin 1) = Fin 0"
  "frame_progress 16777217 1 (Fin 16777216) (Fin 1) = Fin 0"
  by (simp_all add: progress_defs fround_odd_integers fround_pow24)

text \<open>
  A time base is a positive number of units per second. The code does not check the
  denominator it is given, and with a negative one the order would be reversed.
\<close>

lemma negative_denominator_reverses_progress:
  "frame_progress (- 1) (- 1) (Fin 0) (Fin 1) = Fin 1"
  "frame_progress 0 (- 1) (Fin 0) (Fin 1) = NZero"
  by (simp_all add: progress_defs)

section \<open>The composed source\<close>

lemma int_of_size_t_small: "n < 2 ^ 31 \<Longrightarrow> int_of_size_t n = int n"
  unfolding int_of_size_t_def
  by (simp add: signed_of_nat signed_take_bit_int_eq_self)

lemma format_template:
  "format f_shader_template [b] = Some (template_head @ c_str b @ template_tail)"
  by (simp add: f_shader_template_def template_head_def template_tail_def)

lemma length_template_head: "length template_head = 90"
  by (simp add: template_head_def)

lemma length_template_tail: "length template_tail = 52"
  by (simp add: template_tail_def)

lemma strlen_template: "strlen f_shader_template = 144"
  by (simp add: strlen_def c_str_def f_shader_template_def template_head_def template_tail_def)

lemma source_len_small:
  "strlen f_shader_template + strlen b < 2 ^ 31 \<Longrightarrow> source_len b = 144 + int (strlen b)"
  by (simp add: source_len_def int_of_size_t_small strlen_template)

lemma composed_text_small:
  assumes "strlen f_shader_template + strlen b < 2 ^ 31"
  shows "composed_text b = Some (template_head @ c_str b @ template_tail, 142 + strlen b)"
proof -
  have "nat (source_len b) = 144 + strlen b"
    using source_len_small [OF assms] by simp
  then show ?thesis
    by (simp add: composed_text_def snprintf_def format_template
        length_template_head length_template_tail strlen_def)
qed

lemma length_c_str: "length (c_str b) = strlen b"
  by (simp add: strlen_def)

lemma c_str_replicate: "c \<noteq> CHR 0x00 \<Longrightarrow> c_str (replicate n c) = replicate n c"
  by (simp add: c_str_def takeWhile_replicate)

lemma strlen_replicate: "c \<noteq> CHR 0x00 \<Longrightarrow> strlen (replicate n c) = n"
  by (simp add: strlen_def c_str_replicate)

lemma strlen_default: "strlen f_default_transition_source = 58"
  by (simp add: strlen_def c_str_def f_default_transition_source_def)

lemma c_str_default: "c_str f_default_transition_source = f_default_transition_source"
  by (simp add: c_str_def f_default_transition_source_def)

lemma composed_default:
  "source_len f_default_transition_source = 202"
  "composed_text f_default_transition_source
     = Some (template_head @ f_default_transition_source @ template_tail, 200)"
  by (simp_all add: source_len_small composed_text_small strlen_template strlen_default c_str_default)

lemma c_str_composed_default:
  "c_str (template_head @ f_default_transition_source @ template_tail)
     = template_head @ f_default_transition_source @ template_tail"
  by (simp add: c_str_def template_head_def template_tail_def f_default_transition_source_def)

lemma c_str_v_shader_source: "c_str v_shader_source = v_shader_source"
  by (simp add: c_str_def v_shader_source_def)

lemma create_simps [simp]:
  "fst (create K w) = next_name w"
  "live (snd (create K w)) = K (next_name w) # live w"
  "next_name (snd (create K w)) = Suc (next_name w)"
  "trace (snd (create K w)) = trace w @ [Created (K (next_name w))]"
  "priv (snd (create K w)) = priv w"
  "av_log (snd (create K w)) = av_log w"
  by (simp_all add: create_def emit_def Let_def)

lemma release_simps [simp]:
  "priv (release r w) = priv w"
  "live (release r w) = removeAll r (live w)"
  "trace (release r w) = trace w @ [Released r]"
  by (simp_all add: release_def emit_def)

lemma emit_simps [simp]:
  "priv (emit ev w) = priv w"
  "live (emit ev w) = live w"
  "trace (emit ev w) = trace w @ [ev]"
  by (simp_all add: emit_def)

lemma compose_and_link_eq:
  "compose_and_link e v ts w =
     (if source_len ts < 0 \<or> \<not> av_calloc_ok e then (Returns (AVERROR ENOMEM), w)
      else
        (case (if source_len ts = 0 then None else composed_text ts) of
           None \<Rightarrow> (Undefined_Behaviour, snd (create Heap w))
         | Some (c, n) \<Rightarrow>
             let w2 = (snd (create Heap w))\<lparr>priv := (priv w)\<lparr>f_shader_source := Some (next_name w, c)\<rparr>\<rparr>;
                 w3 = snd (build_shader e c GL_FRAGMENT_SHADER w2)
             in if fst (build_shader e c GL_FRAGMENT_SHADER w2) = 0 then
                  (Returns (- 1), w3\<lparr>av_log := av_log w3 @ [''invalid fragment shader\<newline>'']\<rparr>)
                else if glCreateProgram_ok e then
                  (Returns (if link_status e then 0 else - 1),
                   emit (Link (next_name w3))
                     ((snd (create Program w3))\<lparr>priv := (priv w3)\<lparr>program := next_name w3\<rparr>\<rparr>))
                else
                  (Returns (if link_status e then 0 else - 1),
                   emit (Link 0) (w3\<lparr>priv := (priv w3)\<lparr>program := 0\<rparr>\<rparr>))))"
  by (simp add: compose_and_link_def Let_def case_prod_beta split: option.split)

lemma build_shader_priv [simp]: "priv (snd (build_shader e src ty w)) = priv w"
  by (simp add: build_shader_def create_def emit_def Let_def)

lemma build_shader_av_log [simp]: "av_log (snd (build_shader e src ty w)) = av_log w"
  by (simp add: build_shader_def create_def emit_def Let_def)

lemma build_program_eq:
  "build_program e w =
     (let w1 = snd (build_shader e v_shader_source GL_VERTEX_SHADER w);
          v_shader = fst (build_shader e v_shader_source GL_VERTEX_SHADER w)
      in if v_shader = 0 then
           (Returns (- 1), w1\<lparr>av_log := av_log w1 @ [''invalid vertex shader\<newline>'']\<rparr>)
         else
           (case source (priv w) of
              None \<Rightarrow> compose_and_link e v_shader f_default_transition_source w1
            | Some path \<Rightarrow>
                (case fopen e (c_str path) of
                   None \<Rightarrow>
                     (Returns (- 1), w1\<lparr>av_log := av_log w1 @ [invalid_source_message path]\<rparr>)
                 | Some f \<Rightarrow>
                     (case read_source e f of
                        None \<Rightarrow> (Undefined_Behaviour, w1)
                      | Some block \<Rightarrow> compose_and_link e v_shader block w1))))"
  by (simp add: build_program_def case_prod_beta Let_def)

lemma compose_and_link_source:
  assumes "strlen f_shader_template + strlen b < 2 ^ 31" and "av_calloc_ok e"
  shows "f_shader_source (priv (snd (compose_and_link e v b w)))
       = Some (next_name w, template_head @ c_str b @ template_tail)"
  using assms
  by (simp add: compose_and_link_eq source_len_small composed_text_small Let_def)

lemma template_declarations_in_head:
  "list_all (\<lambda>d. sublist d template_head) template_declarations"
proof -
  have "sublist ''uniform sampler2D to;'' template_head"
    unfolding sublist_def template_head_def
    by (rule exI [of _ "[]"], rule exI) simp
  moreover have "sublist ''varying vec2 _uv;'' template_head"
    unfolding sublist_def template_head_def
    by (rule exI [of _ "''uniform sampler2D to;\<newline>''"], rule exI) simp
  moreover have "sublist ''uniform float progress;'' template_head"
    unfolding sublist_def template_head_def
    by (rule exI [of _ "''uniform sampler2D to;\<newline>varying vec2 _uv;\<newline>''"], rule exI) simp
  moreover have "sublist ''uniform vec2 resolution;'' template_head"
    unfolding sublist_def template_head_def
    by (rule exI [of _ "''uniform sampler2D to;\<newline>varying vec2 _uv;\<newline>uniform float progress;\<newline>''"],
        rule exI) simp
  ultimately show ?thesis
    by (simp add: template_declarations_def)
qed

text \<open>
  For every transition body whose length, added to the length of the template, stays
  below \<open>2^31\<close>, the composed source is the template with the body in the place of
  its \<^verbatim>\<open>%s\<close>: the text before the \<^verbatim>\<open>%s\<close>, which holds the four declarations,
  then the body, then the text after it. The template has no other conversion
  specification, so the body is substituted once. This text is what
  \<^verbatim>\<open>build_program\<close> stores in \<^verbatim>\<open>f_shader_source\<close> when the buffer is allocated.
\<close>

lemma composed_source_substitutes_body:
  assumes "strlen f_shader_template + strlen b < 2 ^ 31"
  shows "composed_text b =
           Some (template_head @ c_str b @ template_tail,
                 length template_head + strlen b + length template_tail) \<and>
         f_shader_template = template_head @ ''%s'' @ template_tail \<and>
         CHR ''%'' \<notin> set template_head \<and> CHR ''%'' \<notin> set template_tail \<and>
         list_all (\<lambda>d. sublist d template_head) template_declarations \<and>
         (av_calloc_ok e \<longrightarrow>
            f_shader_source (priv (snd (compose_and_link e v b w)))
              = Some (next_name w, template_head @ c_str b @ template_tail))"
proof -
  have "CHR ''%'' \<notin> set template_head" "CHR ''%'' \<notin> set template_tail"
    by (simp_all add: template_head_def template_tail_def)
  then show ?thesis
    using assms
    by (simp add: composed_text_small compose_and_link_source template_declarations_in_head
        f_shader_template_def length_template_head length_template_tail)
qed

lemma default_body_is_substituted:
  "composed_text f_default_transition_source =
     Some (template_head @ f_default_transition_source @ template_tail, 200) \<and>
   f_shader_source (priv (snd (compose_and_link sample_env 2 f_default_transition_source
       (fresh_world (Fin 1) (Fin 0) None))))
     = Some (1, template_head @ f_default_transition_source @ template_tail)"
proof -
  have small: "strlen f_shader_template + strlen f_default_transition_source < 2 ^ 31"
    by (simp add: strlen_template strlen_default)
  show ?thesis
    using composed_source_substitutes_body
      [OF small, where e = sample_env and v = 2 and w = "fresh_world (Fin 1) (Fin 0) None"]
    by (simp add: c_str_default length_template_head length_template_tail strlen_default
        sample_env_def fresh_world_def)
qed

text \<open>
  Claim C5. The composed source is to contain the declarations and the transition
  body, once, where the template has its \<^verbatim>\<open>%s\<close>, whatever the body. The code keeps
  the sum of the two lengths, a \<^verbatim>\<open>size_t\<close>, in \<^verbatim>\<open>int len\<close> (line 133) and gives that
  to \<^verbatim>\<open>snprintf\<close> as the size of the buffer. For a body of \<open>2^32\<close> characters the
  length kept is 144, and the composed source stops after the first 53 characters of
  the body: the body is not in it, nor is the end of the template.
\<close>

theorem oversized_body_is_not_in_composed_source:
  "composed_text (replicate (2 ^ 32) CHR ''a'')
     = Some (template_head @ replicate 53 CHR ''a'', 2 ^ 32 + 142) \<and>
   \<not> sublist (replicate (2 ^ 32) CHR ''a'') (template_head @ replicate 53 CHR ''a'')"
proof -
  have "int_of_size_t (144 + 2 ^ 32) = 144"
    unfolding int_of_size_t_def by simp
  then have len: "source_len (replicate (2 ^ 32) CHR ''a'') = 144"
    by (simp add: source_len_def strlen_template strlen_replicate)
  have "composed_text (replicate (2 ^ 32) CHR ''a'')
     = Some (template_head @ replicate 53 CHR ''a'', 2 ^ 32 + 142)"
    using len
    by (simp add: composed_text_def snprintf_def format_template
        c_str_replicate length_template_head length_template_tail)
  moreover have
    "\<not> sublist (replicate (2 ^ 32) CHR ''a'') (template_head @ replicate 53 CHR ''a'')"
  proof
    assume "sublist (replicate (2 ^ 32) CHR ''a'') (template_head @ replicate 53 CHR ''a'')"
    then have "length (replicate (2 ^ 32) CHR ''a'')
        \<le> length (template_head @ replicate 53 CHR ''a'')"
      by (rule sublist_length_le)
    then show False
      by (simp add: length_template_head)
  qed
  ultimately show ?thesis by blast
qed

text \<open>
  For every transition body whose length, added to the length of the template, stays
  below \<open>2^31\<close>, the buffer has as many bytes as the two lengths together, and the
  composed source with its NUL fits: \<^verbatim>\<open>snprintf\<close> stores the whole text.
\<close>

lemma composed_source_fits_buffer:
  assumes "strlen f_shader_template + strlen b < 2 ^ 31"
  shows "nat (source_len b) = strlen f_shader_template + strlen b \<and>
         (\<exists>out n. composed_text b = Some (out, n) \<and> length out = n \<and>
                  n + 1 \<le> nat (source_len b))"
proof -
  have "nat (source_len b) = 144 + strlen b"
    using source_len_small [OF assms] by simp
  then show ?thesis
    using assms
    by (simp add: composed_text_small strlen_template
        length_template_head length_template_tail length_c_str)
qed

lemma default_body_fits_buffer:
  "nat (source_len f_default_transition_source) = 202 \<and>
   composed_text f_default_transition_source
     = Some (template_head @ f_default_transition_source @ template_tail, 200) \<and>
   length (template_head @ f_default_transition_source @ template_tail) = 200"
proof -
  have small: "strlen f_shader_template + strlen f_default_transition_source < 2 ^ 31"
    by (simp add: strlen_template strlen_default)
  show ?thesis
    using composed_source_fits_buffer [OF small]
    by (auto simp: composed_default strlen_template strlen_default)
qed

text \<open>
  Claim C6. The buffer is to have the two lengths together and to hold the whole
  composed source, so that \<^verbatim>\<open>snprintf\<close> does not truncate it. The size of the buffer
  is the same \<^verbatim>\<open>int len\<close> of line 133. For a body of \<open>2^32 + 1\<close> characters it is
  145, not the sum of the two lengths, and of the \<open>2^32 + 143\<close> characters of the
  composed source the buffer receives the first 144.
\<close>

theorem oversized_body_is_truncated:
  "source_len (replicate (2 ^ 32 + 1) CHR ''b'') = 145 \<and>
   composed_text (replicate (2 ^ 32 + 1) CHR ''b'')
     = Some (template_head @ replicate 54 CHR ''b'', 2 ^ 32 + 143) \<and>
   length (template_head @ replicate 54 CHR ''b'') = 144"
proof -
  have "int_of_size_t (144 + (2 ^ 32 + 1)) = 145"
    unfolding int_of_size_t_def by simp
  then have len: "source_len (replicate (2 ^ 32 + 1) CHR ''b'') = 145"
    by (simp add: source_len_def strlen_template strlen_replicate)
  have "composed_text (replicate (2 ^ 32 + 1) CHR ''b'')
     = Some (template_head @ replicate 54 CHR ''b'', 2 ^ 32 + 143)"
    using len
    by (simp add: composed_text_def snprintf_def format_template
        c_str_replicate length_template_head length_template_tail)
  then show ?thesis
    using len by (simp add: length_template_head)
qed

section \<open>Reading the transition file\<close>

lemma c_str_head_tail: "c_str (template_head @ template_tail) = template_head @ template_tail"
  by (simp add: c_str_def template_head_def template_tail_def)

lemma read_unreadable:
  "read_source unreadable_env \<lparr>fsize = 10, fread_data = None\<rparr>
     = Some (replicate 10 (CHR 0x00) @ [CHR 0x00])"
  by (simp add: read_source_def unreadable_env_def sample_env_def)

lemma strlen_nuls:
  "strlen (replicate 10 (CHR 0x00) @ [CHR 0x00]) = 0"
  "c_str (replicate 10 (CHR 0x00) @ [CHR 0x00]) = []"
  by (simp_all add: strlen_def c_str_def)

lemma composed_nuls:
  "source_len (replicate 10 (CHR 0x00) @ [CHR 0x00]) = 144"
  "composed_text (replicate 10 (CHR 0x00) @ [CHR 0x00]) = Some (template_head @ template_tail, 142)"
  by (simp_all add: source_len_def composed_text_def strlen_template strlen_nuls int_of_size_t_small
      snprintf_def format_template length_template_head length_template_tail)

text \<open>A file that does not open ends \<^verbatim>\<open>build_program\<close> before anything is composed.\<close>

lemma unopenable_file_aborts:
  assumes "source (priv w) = Some path" and "fopen e (c_str path) = None"
  shows "fst (build_program e w) = Returns (- 1)"
    and "f_shader_source (priv (snd (build_program e w))) = f_shader_source (priv w)"
  using assms by (simp_all add: build_program_eq Let_def)

text \<open>
  Claim C7 wants a transition file that cannot be opened or read to end configuration
  with an input error before any source is composed. The code does so for a file that
  does not open (\<open>unopenable_file_aborts\<close>). For the file of \<open>unreadable_env\<close>, which
  opens and cannot be read, it does not: the result of \<^verbatim>\<open>fread\<close> is not tested,
  the source is composed from the bytes \<^verbatim>\<open>malloc\<close> returned (here an empty body),
  stored in \<^verbatim>\<open>f_shader_source\<close> and given to the compiler as shader 4.
  Configuration fails only because that shader does not compile, and the message is
  the compiler's one, not the file's.
\<close>

theorem unreadable_file_is_composed_and_compiled:
  "fst (config_props unreadable_env (snd (init unreadable_env (fresh_world (Fin 1) (Fin 0) (Some ''t.glsl'')))))
     = Returns (- 1) \<and>
   av_log (snd (config_props unreadable_env (snd (init unreadable_env (fresh_world (Fin 1) (Fin 0) (Some ''t.glsl''))))))
     = [''invalid fragment shader\<newline>''] \<and>
   f_shader_source (priv (snd (config_props unreadable_env
       (snd (init unreadable_env (fresh_world (Fin 1) (Fin 0) (Some ''t.glsl'')))))))
     = Some (3, template_head @ template_tail) \<and>
   Compile 4 (template_head @ template_tail)
     \<in> set (trace (snd (config_props unreadable_env
           (snd (init unreadable_env (fresh_world (Fin 1) (Fin 0) (Some ''t.glsl'')))))))"
proof -
  have e: "glfwCreateWindow_ok unreadable_env" "glCreateShader_ok unreadable_env ty"
    "compile_status unreadable_env ty s = (ty = GL_VERTEX_SHADER)"
    "fopen unreadable_env path = Some \<lparr>fsize = 10, fread_data = None\<rparr>"
    "av_calloc_ok unreadable_env" for ty s path
    by (simp_all add: unreadable_env_def sample_env_def)
  show ?thesis
    by (simp add: config_props_def build_program_def compose_and_link_eq build_shader_def
        init_def fresh_world_def create_def emit_def Let_def e read_unreadable composed_nuls
        c_str_head_tail)
qed

section \<open>Compilation failures\<close>

lemma build_shader_fails:
  assumes "\<not> glCreateShader_ok e ty \<or> \<not> compile_status e ty (c_str src)"
  shows "fst (build_shader e src ty w) = 0"
  using assms by (auto simp: build_shader_def case_prod_beta Let_def)

lemma compose_and_link_failed_fragment:
  assumes none: "f_shader_source (priv w) = None"
    and res: "compose_and_link e v ts w = (r, w')"
    and src: "f_shader_source (priv w') = Some (p, c)"
    and fails: "\<not> glCreateShader_ok e GL_FRAGMENT_SHADER
              \<or> \<not> compile_status e GL_FRAGMENT_SHADER (c_str c)"
  shows "r = Returns (- 1) \<and> av_log w' = av_log w @ [''invalid fragment shader\<newline>'']"
proof (cases "source_len ts < 0 \<or> \<not> av_calloc_ok e")
  case True
  then have "w' = w" using res by (auto simp: compose_and_link_eq)
  then show ?thesis using none src by simp
next
  case alloc: False
  show ?thesis
  proof (cases "if source_len ts = 0 then None else composed_text ts")
    case None
    then have "w' = snd (create Heap w)"
      using res alloc by (auto simp: compose_and_link_eq)
    then show ?thesis using none src by simp
  next
    case (Some a)
    obtain c' n where a: "a = (c', n)" by (cases a)
    define w2 where "w2 = (snd (create Heap w))\<lparr>priv := (priv w)\<lparr>f_shader_source := Some (next_name w, c')\<rparr>\<rparr>"
    define w3 where "w3 = snd (build_shader e c' GL_FRAGMENT_SHADER w2)"
    have res': "(r, w') =
       (if fst (build_shader e c' GL_FRAGMENT_SHADER w2) = 0 then
          (Returns (- 1), w3\<lparr>av_log := av_log w3 @ [''invalid fragment shader\<newline>'']\<rparr>)
        else if glCreateProgram_ok e then
          (Returns (if link_status e then 0 else - 1),
           emit (Link (next_name w3))
             ((snd (create Program w3))\<lparr>priv := (priv w3)\<lparr>program := next_name w3\<rparr>\<rparr>))
        else
          (Returns (if link_status e then 0 else - 1),
           emit (Link 0) (w3\<lparr>priv := (priv w3)\<lparr>program := 0\<rparr>\<rparr>)))"
      using res alloc Some a unfolding compose_and_link_eq w2_def w3_def
      by (simp add: Let_def)
    have priv3: "priv w3 = priv w2" by (simp add: w3_def)
    have "f_shader_source (priv w') = Some (next_name w, c')"
      using res' by (auto simp: priv3 w2_def split: if_splits)
    then have "c = c'" using src by simp
    then have "fst (build_shader e c' GL_FRAGMENT_SHADER w2) = 0"
      using fails by (simp add: build_shader_fails)
    then have "r = Returns (- 1)"
      and "w' = w3\<lparr>av_log := av_log w3 @ [''invalid fragment shader\<newline>'']\<rparr>"
      using res' by simp_all
    then show ?thesis by (simp add: w3_def w2_def)
  qed
qed

lemma build_program_cases:
  assumes run: "build_program e w = (r, w')"
  defines "w1 \<equiv> snd (build_shader e v_shader_source GL_VERTEX_SHADER w)"
  shows "(fst (build_shader e v_shader_source GL_VERTEX_SHADER w) = 0 \<and> r = Returns (- 1) \<and>
            w' = w1\<lparr>av_log := av_log w1 @ [''invalid vertex shader\<newline>'']\<rparr>)
       \<or> (\<exists>path. r = Returns (- 1) \<and>
            w' = w1\<lparr>av_log := av_log w1 @ [invalid_source_message path]\<rparr>)
       \<or> (r = Undefined_Behaviour \<and> w' = w1)
       \<or> (\<exists>v ts. compose_and_link e v ts w1 = (r, w'))"
proof (cases "fst (build_shader e v_shader_source GL_VERTEX_SHADER w) = 0")
  case True
  then show ?thesis using run by (simp add: build_program_eq Let_def w1_def)
next
  case vs: False
  show ?thesis
  proof (cases "source (priv w)")
    case None
    then show ?thesis using run vs by (auto simp: build_program_eq Let_def w1_def)
  next
    case (Some path)
    show ?thesis
    proof (cases "fopen e (c_str path)")
      case None
      then show ?thesis using run vs Some by (auto simp: build_program_eq Let_def w1_def)
    next
      case opened: (Some f)
      show ?thesis
      proof (cases "read_source e f")
        case None
        then show ?thesis
          using run vs Some opened by (auto simp: build_program_eq Let_def w1_def)
      next
        case (Some bytes)
        then show ?thesis
          using run vs \<open>source (priv w) = Some path\<close> opened
          by (auto simp: build_program_eq Let_def w1_def)
      qed
    qed
  qed
qed

text \<open>
  Claim C8, as amended. When the vertex shader, or the fragment shader composed into
  \<^verbatim>\<open>f_shader_source\<close>, is refused by \<^verbatim>\<open>glCreateShader\<close> or does not compile,
  \<^verbatim>\<open>build_program\<close> returns -1 and logs one fixed message,
  \<^verbatim>\<open>invalid vertex shader\<close> or \<^verbatim>\<open>invalid fragment shader\<close>. The driver's
  diagnostic is not part of what it returns or logs.
\<close>

theorem failed_compile_is_a_bare_failure:
  assumes run: "build_program e w = (r, w')" and none: "f_shader_source (priv w) = None"
    and fails:
      "(\<not> glCreateShader_ok e GL_VERTEX_SHADER
          \<or> \<not> compile_status e GL_VERTEX_SHADER (c_str v_shader_source))
       \<or> (\<exists>p c. f_shader_source (priv w') = Some (p, c) \<and>
             (\<not> glCreateShader_ok e GL_FRAGMENT_SHADER
                \<or> \<not> compile_status e GL_FRAGMENT_SHADER (c_str c)))"
  shows "r = Returns (- 1) \<and>
         av_log w' = av_log w @
           [if \<not> glCreateShader_ok e GL_VERTEX_SHADER
                 \<or> \<not> compile_status e GL_VERTEX_SHADER (c_str v_shader_source)
            then ''invalid vertex shader\<newline>'' else ''invalid fragment shader\<newline>'']"
proof -
  define w1 where "w1 = snd (build_shader e v_shader_source GL_VERTEX_SHADER w)"
  have w1: "priv w1 = priv w" "av_log w1 = av_log w"
    by (simp_all add: w1_def)
  note cases = build_program_cases [OF run, folded w1_def]
  show ?thesis
  proof (cases "\<not> glCreateShader_ok e GL_VERTEX_SHADER
          \<or> \<not> compile_status e GL_VERTEX_SHADER (c_str v_shader_source)")
    case True
    then have "fst (build_shader e v_shader_source GL_VERTEX_SHADER w) = 0"
      by (rule build_shader_fails)
    then show ?thesis
      using run True by (auto simp: build_program_eq Let_def)
  next
    case False
    then obtain p c where src: "f_shader_source (priv w') = Some (p, c)"
      and ff: "\<not> glCreateShader_ok e GL_FRAGMENT_SHADER
                \<or> \<not> compile_status e GL_FRAGMENT_SHADER (c_str c)"
      using fails by blast
    have "\<exists>v ts. compose_and_link e v ts w1 = (r, w')"
      using cases src none by (auto simp: w1)
    then obtain v ts where "compose_and_link e v ts w1 = (r, w')" by blast
    from compose_and_link_failed_fragment [OF _ this src ff] none False
    show ?thesis by (simp add: w1)
  qed
qed

theorem failed_compile_is_a_bare_failure_witness:
  "fst (build_program no_vertex_shader_env (fresh_world (Fin 1) (Fin 0) None)) = Returns (- 1) \<and>
   av_log (snd (build_program no_vertex_shader_env (fresh_world (Fin 1) (Fin 0) None)))
     = [''invalid vertex shader\<newline>'']"
proof -
  define e where "e = no_vertex_shader_env"
  have run: "build_program e (fresh_world (Fin 1) (Fin 0) None)
      = (fst (build_program e (fresh_world (Fin 1) (Fin 0) None)), snd (build_program e (fresh_world (Fin 1) (Fin 0) None)))"
    by simp
  have none: "f_shader_source (priv (fresh_world (Fin 1) (Fin 0) None)) = None"
    by (simp add: fresh_world_def)
  have fails: "(\<not> glCreateShader_ok e GL_VERTEX_SHADER
          \<or> \<not> compile_status e GL_VERTEX_SHADER (c_str v_shader_source))
       \<or> (\<exists>p c. f_shader_source (priv (snd (build_program e (fresh_world (Fin 1) (Fin 0) None)))) = Some (p, c) \<and>
             (\<not> glCreateShader_ok e GL_FRAGMENT_SHADER
                \<or> \<not> compile_status e GL_FRAGMENT_SHADER (c_str c)))"
    by (simp add: e_def no_vertex_shader_env_def)
  have "av_log (fresh_world (Fin 1) (Fin 0) None) = []"
    by (simp add: fresh_world_def)
  then show ?thesis
    using failed_compile_is_a_bare_failure [OF run none fails]
    unfolding e_def by (simp add: no_vertex_shader_env_def sample_env_def)
qed

lemma bad_fragment_env_simps:
  "glfwInit_ok (bad_fragment_env d)" "glfwCreateWindow_ok (bad_fragment_env d)"
  "glCreateShader_ok (bad_fragment_env d) ty"
  "compile_status (bad_fragment_env d) ty s = (ty = GL_VERTEX_SHADER)"
  "info_log (bad_fragment_env d) ty s = (if ty = GL_FRAGMENT_SHADER then d else [])"
  "av_calloc_ok (bad_fragment_env d)"
  by (simp_all add: bad_fragment_env_def sample_env_def)

lemma bad_fragment_run:
  "fst (config_props (bad_fragment_env d) (snd (init (bad_fragment_env d) (fresh_world (Fin 1) (Fin 0) None))))
     = Returns (- 1)"
  "av_log (snd (config_props (bad_fragment_env d) (snd (init (bad_fragment_env d) (fresh_world (Fin 1) (Fin 0) None)))))
     = [''invalid fragment shader\<newline>'']"
  "priv (snd (config_props (bad_fragment_env d) (snd (init (bad_fragment_env d) (fresh_world (Fin 1) (Fin 0) None)))))
     = \<lparr>duration = Fin 1, offset = Fin 0, source = None, first_pts = AV_NOPTS_VALUE, progress = 0,
        frame_tex = 0, program = 0, pos_buf = 0, window = 1,
        f_shader_source = Some (3, template_head @ f_default_transition_source @ template_tail)\<rparr>"
  "shader_logs (snd (config_props (bad_fragment_env d) (snd (init (bad_fragment_env d) (fresh_world (Fin 1) (Fin 0) None)))))
     = [(4, d), (2, [])]"
  by (simp_all add: config_props_def build_program_eq compose_and_link_eq build_shader_def
      init_def fresh_world_def create_def emit_def Let_def bad_fragment_env_simps
      composed_default c_str_composed_default)

text \<open>
  The claim as stated fails. Two drivers that refuse the default fragment shader with
  different diagnostics leave the caller of \<^verbatim>\<open>config_props\<close> with the same return
  value, the same log and the same context. The diagnostic stays in the driver under
  the shader's name 4, while \<^verbatim>\<open>build_shader\<close> hands back the name 0.
\<close>

theorem diagnostic_never_reaches_the_caller:
  "visible (config_props (bad_fragment_env ''0:7: syntax error'')
             (snd (init (bad_fragment_env ''0:7: syntax error'') (fresh_world (Fin 1) (Fin 0) None))))
     = visible (config_props (bad_fragment_env ''0:9: undeclared identifier'')
             (snd (init (bad_fragment_env ''0:9: undeclared identifier'') (fresh_world (Fin 1) (Fin 0) None)))) \<and>
   av_log (snd (config_props (bad_fragment_env ''0:7: syntax error'')
             (snd (init (bad_fragment_env ''0:7: syntax error'') (fresh_world (Fin 1) (Fin 0) None)))))
     = [''invalid fragment shader\<newline>''] \<and>
   glGetShaderInfoLog (snd (config_props (bad_fragment_env ''0:7: syntax error'')
             (snd (init (bad_fragment_env ''0:7: syntax error'') (fresh_world (Fin 1) (Fin 0) None))))) 4
     = ''0:7: syntax error'' \<and>
   fst (build_shader (bad_fragment_env ''0:7: syntax error'')
          (template_head @ f_default_transition_source @ template_tail) GL_FRAGMENT_SHADER
          (fresh_world (Fin 1) (Fin 0) None)) = 0"
  by (simp add: visible_def bad_fragment_run glGetShaderInfoLog_def build_shader_fails
      bad_fragment_env_simps)

section \<open>Teardown\<close>

lemma handle_simps [simp]:
  "handle K 0 = []"
  "n \<noteq> 0 \<Longrightarrow> handle K n = [K n]"
  "r \<in> set (handle K n) \<longleftrightarrow> n \<noteq> 0 \<and> r = K n"
  by (simp_all add: handle_def)

lemma handle_empty [simp]: "handle K n = [] \<longleftrightarrow> n = 0"
  by (simp add: handle_def)

lemma heap_block_empty [simp]: "heap_block s = [] \<longleftrightarrow> s = None"
  by (cases s) auto

lemma in_heap_block [simp]: "r \<in> set (heap_block s) \<longleftrightarrow> (\<exists>p c. s = Some (p, c) \<and> r = Heap p)"
  by (cases s) auto

lemma accounted_shader:
  assumes "accounted w"
  shows "accounted (snd (create Shader w))"
  using assms
  by (auto simp: accounted_def create_def emit_def Let_def trace_appends)

lemma accounted_emit:
  assumes "accounted w" "created [ev] = []" "released [ev] = []" "bad_releases [ev] = []"
  shows "accounted (emit ev w)"
  using assms by (simp add: accounted_def emit_def trace_appends)

lemma accounted_av_log [simp]: "accounted (w\<lparr>av_log := l\<rparr>) = accounted w"
  by (simp add: accounted_def)

lemma accounted_shader_logs [simp]: "accounted (w\<lparr>shader_logs := l\<rparr>) = accounted w"
  by (simp add: accounted_def)

lemma build_shader_accounted:
  assumes "accounted w"
  shows "accounted (snd (build_shader e src ty w))"
proof (cases "glCreateShader_ok e ty")
  case False
  then show ?thesis using assms by (simp add: build_shader_def)
next
  case True
  obtain n w1 where c: "create Shader w = (n, w1)" by (cases "create Shader w")
  then have "accounted w1" using accounted_shader [OF assms] by simp
  then have "accounted (emit (Compile n (c_str src))
                (w1\<lparr>shader_logs := (n, info_log e ty (c_str src)) # shader_logs w1\<rparr>))"
    by (intro accounted_emit) simp_all
  then show ?thesis using True c by (simp add: build_shader_def Let_def)
qed

lemma owned_window:
  "window gs = 0 \<Longrightarrow> n \<noteq> 0 \<Longrightarrow>
   set (owned (gs\<lparr>window := n\<rparr>)) = insert (Window n) (set (owned gs))"
  by (simp add: owned_def)

lemma owned_heap:
  "f_shader_source gs = None \<Longrightarrow>
   set (owned (gs\<lparr>f_shader_source := Some (p, c)\<rparr>)) = insert (Heap p) (set (owned gs))"
  by (simp add: owned_def)

lemma owned_program:
  "program gs = 0 \<Longrightarrow> n \<noteq> 0 \<Longrightarrow>
   set (owned (gs\<lparr>program := n\<rparr>)) = insert (Program n) (set (owned gs))"
  by (simp add: owned_def)

lemma owned_pos_buf:
  "pos_buf gs = 0 \<Longrightarrow> n \<noteq> 0 \<Longrightarrow>
   set (owned (gs\<lparr>pos_buf := n\<rparr>)) = insert (Buffer n) (set (owned gs))"
  by (simp add: owned_def)

lemma owned_frame_tex:
  "frame_tex gs = 0 \<Longrightarrow> n \<noteq> 0 \<Longrightarrow>
   set (owned (gs\<lparr>frame_tex := n\<rparr>)) = insert (Texture n) (set (owned gs))"
  by (simp add: owned_def)

lemma owned_other [simp]:
  "owned (gs\<lparr>progress := l\<rparr>) = owned gs"
  "owned (gs\<lparr>first_pts := t\<rparr>) = owned gs"
  by (simp_all add: owned_def)

lemma accounted_create:
  assumes "accounted w"
    and "\<not> is_shader (K (next_name w))" and "name_of (K (next_name w)) = next_name w"
    and "set (owned gs) = insert (K (next_name w)) (set (owned (priv w)))"
    and "window gs = 0 \<longrightarrow> frame_tex gs = 0 \<and> program gs = 0 \<and> pos_buf gs = 0"
  shows "accounted ((snd (create K w))\<lparr>priv := gs\<rparr>)"
  using assms unfolding accounted_def
  by (auto simp: trace_appends)

lemma accounted_priv_other:
  assumes "accounted w" "owned gs = owned (priv w)"
    "window gs = window (priv w)" "frame_tex gs = frame_tex (priv w)"
    "program gs = program (priv w)" "pos_buf gs = pos_buf (priv w)"
  shows "accounted (w\<lparr>priv := gs\<rparr>)"
  using assms unfolding accounted_def by simp

lemma accounted_next_name: "accounted w \<Longrightarrow> next_name w \<noteq> 0"
  by (simp add: accounted_def)

lemma accounted_vbo:
  assumes "accounted w" "pos_buf (priv w) = 0" "window (priv w) \<noteq> 0"
  shows "accounted (vbo_setup w)"
proof -
  have "accounted ((snd (create Buffer w))\<lparr>priv := (priv w)\<lparr>pos_buf := next_name w\<rparr>\<rparr>)"
    using assms accounted_next_name [OF assms(1)]
    by (intro accounted_create) (simp_all add: owned_pos_buf)
  then show ?thesis
    by (simp add: vbo_setup_def split: prod.split) (simp add: create_def emit_def Let_def)
qed

lemma accounted_tex:
  assumes "accounted w" "frame_tex (priv w) = 0" "window (priv w) \<noteq> 0"
  shows "accounted (tex_setup w)"
proof -
  have "accounted ((snd (create Texture w))\<lparr>priv := (priv w)\<lparr>frame_tex := next_name w\<rparr>\<rparr>)"
    using assms accounted_next_name [OF assms(1)]
    by (intro accounted_create) (simp_all add: owned_frame_tex)
  then have "accounted (emit (TexImage2D (next_name w) [])
      ((snd (create Texture w))\<lparr>priv := (priv w)\<lparr>frame_tex := next_name w\<rparr>\<rparr>))"
    by (intro accounted_emit) simp_all
  then show ?thesis
    by (simp add: tex_setup_def split: prod.split) (simp add: create_def emit_def Let_def)
qed

lemma accounted_uniforms:
  assumes "accounted w"
  shows "accounted (uniforms_setup e w)"
proof -
  have "accounted (w\<lparr>priv := (priv w)\<lparr>progress := uniform_location e ''progress''\<rparr>\<rparr>)"
    using assms by (intro accounted_priv_other) simp_all
  then show ?thesis
    unfolding uniforms_setup_def Let_def by (intro accounted_emit) simp_all
qed

lemma setup_priv [simp]:
  "window (priv (vbo_setup w)) = window (priv w)"
  "frame_tex (priv (vbo_setup w)) = frame_tex (priv w)"
  "window (priv (tex_setup w)) = window (priv w)"
  by (simp_all add: vbo_setup_def tex_setup_def create_def emit_def Let_def)

lemma compose_and_link_frame [simp]:
  "window (priv (snd (compose_and_link e v ts w))) = window (priv w)"
  "pos_buf (priv (snd (compose_and_link e v ts w))) = pos_buf (priv w)"
  "frame_tex (priv (snd (compose_and_link e v ts w))) = frame_tex (priv w)"
  by (simp_all add: compose_and_link_def build_shader_def create_def emit_def Let_def
      split: option.split prod.split)

lemma compose_and_link_accounted:
  assumes acc: "accounted w" and src: "f_shader_source (priv w) = None"
    and prog: "program (priv w) = 0" and win: "window (priv w) \<noteq> 0"
    and res: "compose_and_link e v ts w = (Returns r, w')"
  shows "accounted w'"
proof (cases "source_len ts < 0 \<or> \<not> av_calloc_ok e")
  case True
  then have "w' = w" using res by (auto simp: compose_and_link_eq)
  then show ?thesis using acc by simp
next
  case alloc: False
  obtain c n where comp: "(if source_len ts = 0 then None else composed_text ts) = Some (c, n)"
    using res alloc
    by (cases "if source_len ts = 0 then None else composed_text ts")
       (auto simp: compose_and_link_eq)
  define w2 where "w2 = (snd (create Heap w))\<lparr>priv := (priv w)\<lparr>f_shader_source := Some (next_name w, c)\<rparr>\<rparr>"
  have acc2: "accounted w2"
    unfolding w2_def using acc src win
    by (intro accounted_create) (simp_all add: owned_heap)
  define w3 where "w3 = snd (build_shader e c GL_FRAGMENT_SHADER w2)"
  have acc3: "accounted w3" and priv3: "priv w3 = priv w2"
    unfolding w3_def using acc2 by (simp_all add: build_shader_accounted)
  have res': "(Returns r, w') = 
       (if fst (build_shader e c GL_FRAGMENT_SHADER w2) = 0 then
                  (Returns (- 1), w3\<lparr>av_log := av_log w3 @ [''invalid fragment shader\<newline>'']\<rparr>)
                else if glCreateProgram_ok e then
                  (Returns (if link_status e then 0 else - 1),
                   emit (Link (next_name w3))
                     ((snd (create Program w3))\<lparr>priv := (priv w3)\<lparr>program := next_name w3\<rparr>\<rparr>))
                else
                  (Returns (if link_status e then 0 else - 1),
                   emit (Link 0) (w3\<lparr>priv := (priv w3)\<lparr>program := 0\<rparr>\<rparr>)))"
    using res alloc comp unfolding compose_and_link_eq w2_def w3_def
    by (simp add: Let_def)
  show ?thesis
  proof (cases "fst (build_shader e c GL_FRAGMENT_SHADER w2) = 0")
    case True
    then have "w' = w3\<lparr>av_log := av_log w3 @ [''invalid fragment shader\<newline>'']\<rparr>"
      using res' by simp
    then show ?thesis using acc3 by simp
  next
    case fs: False
    show ?thesis
    proof (cases "glCreateProgram_ok e")
      case True
      have "accounted ((snd (create Program w3))\<lparr>priv := (priv w3)\<lparr>program := next_name w3\<rparr>\<rparr>)"
        using acc3 accounted_next_name [OF acc3] prog win
        by (intro accounted_create) (simp_all add: owned_program priv3 w2_def)
      then have "accounted (emit (Link (next_name w3))
          ((snd (create Program w3))\<lparr>priv := (priv w3)\<lparr>program := next_name w3\<rparr>\<rparr>))"
        by (intro accounted_emit) simp_all
      moreover have "w' = emit (Link (next_name w3))
          ((snd (create Program w3))\<lparr>priv := (priv w3)\<lparr>program := next_name w3\<rparr>\<rparr>)"
        using res' fs True by simp
      ultimately show ?thesis by simp
    next
      case False
      have "accounted (w3\<lparr>priv := (priv w3)\<lparr>program := 0\<rparr>\<rparr>)"
        using acc3 prog
        by (intro accounted_priv_other) (simp_all add: priv3 w2_def owned_def)
      then have "accounted (emit (Link 0) (w3\<lparr>priv := (priv w3)\<lparr>program := 0\<rparr>\<rparr>))"
        by (intro accounted_emit) simp_all
      moreover have "w' = emit (Link 0) (w3\<lparr>priv := (priv w3)\<lparr>program := 0\<rparr>\<rparr>)"
        using res' fs False by simp
      ultimately show ?thesis by simp
    qed
  qed
qed

lemma build_program_frame [simp]:
  "window (priv (snd (build_program e w))) = window (priv w)"
  "pos_buf (priv (snd (build_program e w))) = pos_buf (priv w)"
  "frame_tex (priv (snd (build_program e w))) = frame_tex (priv w)"
  by (simp_all add: build_program_def case_prod_beta split: option.split)

lemma build_program_accounted:
  assumes acc: "accounted w" and src: "f_shader_source (priv w) = None"
    and prog: "program (priv w) = 0" and win: "window (priv w) \<noteq> 0"
    and res: "build_program e w = (Returns r, w')"
  shows "accounted w'"
proof -
  define w1 where "w1 = snd (build_shader e v_shader_source GL_VERTEX_SHADER w)"
  have acc1: "accounted w1" and priv1: "priv w1 = priv w"
    unfolding w1_def using acc by (simp_all add: build_shader_accounted)
  have pre: "f_shader_source (priv w1) = None" "program (priv w1) = 0" "window (priv w1) \<noteq> 0"
    using src prog win by (simp_all add: priv1)
  have "w' = w1\<lparr>av_log := av_log w1 @ [''invalid vertex shader\<newline>'']\<rparr>
      \<or> (\<exists>path. w' = w1\<lparr>av_log := av_log w1 @ [invalid_source_message path]\<rparr>)
      \<or> (\<exists>v ts. compose_and_link e v ts w1 = (Returns r, w'))"
    using res unfolding build_program_def w1_def
    by (auto simp: case_prod_beta split: if_splits option.splits)
  then show ?thesis
    using acc1 compose_and_link_accounted [OF acc1 pre] by auto
qed

lemma config_props_accounted:
  assumes acc: "accounted w" and zero: "owned (priv w) = []"
    and res: "config_props e w = (Returns r, w')"
  shows "accounted w'"
proof (cases "glfwCreateWindow_ok e")
  case False
  then have "w' = w\<lparr>av_log := av_log w @ [''config_props setup_gl ERROR: '']\<rparr>"
    using res by (simp add: config_props_def)
  then show ?thesis using acc by simp
next
  case True
  have fields: "window (priv w) = 0" "program (priv w) = 0" "pos_buf (priv w) = 0"
    "frame_tex (priv w) = 0" "f_shader_source (priv w) = None"
    using zero by (simp_all add: owned_def)
  define w1 where "w1 = (snd (create Window w))\<lparr>priv := (priv w)\<lparr>window := next_name w\<rparr>\<rparr>"
  have acc1: "accounted w1"
    unfolding w1_def using acc fields accounted_next_name [OF acc]
    by (intro accounted_create) (simp_all add: owned_window)
  have pre: "f_shader_source (priv w1) = None" "program (priv w1) = 0" "window (priv w1) \<noteq> 0"
    "pos_buf (priv w1) = 0" "frame_tex (priv w1) = 0"
    using fields accounted_next_name [OF acc] by (simp_all add: w1_def)
  obtain o2 w2 where bp0: "build_program e w1 = (o2, w2)"
    by (cases "build_program e w1")
  have "config_props e w =
      (case o2 of
         Returns ret \<Rightarrow>
           if ret < 0 then (Returns ret, w2)
           else (Returns 0, uniforms_setup e (tex_setup (vbo_setup w2)))
       | Undefined_Behaviour \<Rightarrow> (Undefined_Behaviour, w2))"
    using True bp0 [unfolded w1_def]
    by (cases o2) (simp_all add: config_props_def case_prod_beta)
  then obtain ret where o2: "o2 = Returns ret"
    and fin: "w' = (if ret < 0 then w2 else uniforms_setup e (tex_setup (vbo_setup w2)))"
    using res by (cases o2) (auto split: if_splits)
  have bp: "build_program e w1 = (Returns ret, w2)"
    using bp0 o2 by simp
  have acc2: "accounted w2"
    using build_program_accounted [OF acc1 pre(1-3) bp] .
  have w2: "w2 = snd (build_program e w1)" using bp by simp
  have post: "window (priv w2) \<noteq> 0" "pos_buf (priv w2) = 0" "frame_tex (priv w2) = 0"
    using pre by (simp_all add: w2)
  have "accounted (uniforms_setup e (tex_setup (vbo_setup w2)))"
    using acc2 post by (intro accounted_uniforms accounted_tex accounted_vbo) simp_all
  then show ?thesis using fin acc2 by simp
qed

lemma filter_frame_accounted:
  assumes "accounted w"
  shows "accounted (snd (snd (filter_frame e den frame w)))"
proof (cases "get_video_buffer_ok e")
  case False
  then show ?thesis using assms by (simp add: filter_frame_def)
next
  case True
  then show ?thesis
    using assms unfolding filter_frame_def Let_def
    by (simp add: accounted_emit)
qed

lemma feed_accounted: "accounted w \<Longrightarrow> accounted (feed e frames w)"
  by (induction e frames w rule: feed.induct) (simp_all add: filter_frame_accounted)

lemma init_accounted:
  "accounted w \<Longrightarrow> accounted (snd (init e w))"
  "owned (priv (snd (init e w))) = owned (priv w)"
  by (simp_all add: init_def Let_def accounted_def)

lemma fresh_world_accounted:
  "accounted (fresh_world dur off src)" "owned (priv (fresh_world dur off src)) = []"
  by (simp_all add: fresh_world_def accounted_def owned_def)

lemma in_owned:
  "Texture t \<in> set (owned gs) \<longleftrightarrow> t \<noteq> 0 \<and> frame_tex gs = t"
  "Program t \<in> set (owned gs) \<longleftrightarrow> t \<noteq> 0 \<and> program gs = t"
  "Buffer t \<in> set (owned gs) \<longleftrightarrow> t \<noteq> 0 \<and> pos_buf gs = t"
  "Window t \<in> set (owned gs) \<longleftrightarrow> t \<noteq> 0 \<and> window gs = t"
  "Heap t \<in> set (owned gs) \<longleftrightarrow> (\<exists>c. f_shader_source gs = Some (t, c))"
  "Shader t \<notin> set (owned gs)"
  by (auto simp: owned_def)

lemma owned_alive:
  assumes "accounted w"
  shows "Texture (frame_tex (priv w)) \<in> set (live w) \<longleftrightarrow> frame_tex (priv w) \<noteq> 0"
    and "Program (program (priv w)) \<in> set (live w) \<longleftrightarrow> program (priv w) \<noteq> 0"
    and "Buffer (pos_buf (priv w)) \<in> set (live w) \<longleftrightarrow> pos_buf (priv w) \<noteq> 0"
    and "Window (window (priv w)) \<in> set (live w) \<longleftrightarrow> window (priv w) \<noteq> 0"
    and "f_shader_source (priv w) = Some (p, c) \<Longrightarrow> Heap p \<in> set (live w)"
proof -
  have own: "\<And>r. \<not> is_shader r \<Longrightarrow> r \<in> set (live w) \<longleftrightarrow> r \<in> set (owned (priv w))"
    using assms by (auto simp: accounted_def)
  show "Texture (frame_tex (priv w)) \<in> set (live w) \<longleftrightarrow> frame_tex (priv w) \<noteq> 0"
    by (simp add: own in_owned)
  show "Program (program (priv w)) \<in> set (live w) \<longleftrightarrow> program (priv w) \<noteq> 0"
    by (simp add: own in_owned)
  show "Buffer (pos_buf (priv w)) \<in> set (live w) \<longleftrightarrow> pos_buf (priv w) \<noteq> 0"
    by (simp add: own in_owned)
  show "Window (window (priv w)) \<in> set (live w) \<longleftrightarrow> window (priv w) \<noteq> 0"
    by (simp add: own in_owned)
  show "f_shader_source (priv w) = Some (p, c) \<Longrightarrow> Heap p \<in> set (live w)"
    by (simp add: own in_owned)
qed

text \<open>One delete call, on a name that is alive exactly when it is not 0.\<close>

lemma glDeleteTextures_alive:
  assumes "Texture n \<in> set (live w) \<longleftrightarrow> n \<noteq> 0"
  shows "priv (glDeleteTextures n w) = priv w"
    and "set (live (glDeleteTextures n w)) = set (live w) - set (handle Texture n)"
    and "released (trace (glDeleteTextures n w)) = released (trace w) @ handle Texture n"
    and "created (trace (glDeleteTextures n w)) = created (trace w)"
    and "bad_releases (trace (glDeleteTextures n w)) = bad_releases (trace w)"
  using assms by (auto simp: glDeleteTextures_def trace_appends)

lemma glDeleteBuffers_alive:
  assumes "Buffer n \<in> set (live w) \<longleftrightarrow> n \<noteq> 0"
  shows "priv (glDeleteBuffers n w) = priv w"
    and "set (live (glDeleteBuffers n w)) = set (live w) - set (handle Buffer n)"
    and "released (trace (glDeleteBuffers n w)) = released (trace w) @ handle Buffer n"
    and "created (trace (glDeleteBuffers n w)) = created (trace w)"
    and "bad_releases (trace (glDeleteBuffers n w)) = bad_releases (trace w)"
  using assms by (auto simp: glDeleteBuffers_def trace_appends)

lemma glDeleteProgram_alive:
  assumes "Program n \<in> set (live w) \<longleftrightarrow> n \<noteq> 0"
  shows "priv (glDeleteProgram n w) = priv w"
    and "set (live (glDeleteProgram n w)) = set (live w) - set (handle Program n)"
    and "released (trace (glDeleteProgram n w)) = released (trace w) @ handle Program n"
    and "created (trace (glDeleteProgram n w)) = created (trace w)"
    and "bad_releases (trace (glDeleteProgram n w)) = bad_releases (trace w)"
  using assms by (auto simp: glDeleteProgram_def trace_appends)

lemma glfwDestroyWindow_alive:
  assumes "Window n \<in> set (live w) \<longleftrightarrow> n \<noteq> 0"
  shows "priv (glfwDestroyWindow n w) = priv w"
    and "set (live (glfwDestroyWindow n w)) = set (live w) - set (handle Window n)"
    and "released (trace (glfwDestroyWindow n w)) = released (trace w) @ handle Window n"
    and "created (trace (glfwDestroyWindow n w)) = created (trace w)"
    and "bad_releases (trace (glfwDestroyWindow n w)) = bad_releases (trace w)"
  using assms by (auto simp: glfwDestroyWindow_def trace_appends)

lemma av_freep_alive:
  assumes "\<And>p c. f_shader_source (priv w) = Some (p, c) \<Longrightarrow> Heap p \<in> set (live w)"
  shows "set (live (av_freep_f_shader_source w))
           = set (live w) - set (heap_block (f_shader_source (priv w)))"
    and "released (trace (av_freep_f_shader_source w))
           = released (trace w) @ heap_block (f_shader_source (priv w))"
    and "created (trace (av_freep_f_shader_source w)) = created (trace w)"
    and "bad_releases (trace (av_freep_f_shader_source w)) = bad_releases (trace w)"
  using assms
  by (cases "f_shader_source (priv w)"; auto simp: av_freep_f_shader_source_def trace_appends)+

lemma uninit_eq:
  "uninit w =
     (let w4 = (if window (priv w) \<noteq> 0 then
                  glfwDestroyWindow (window (priv w))
                    (glDeleteBuffers (pos_buf (priv w))
                      (glDeleteProgram (program (priv w))
                        (glDeleteTextures (frame_tex (priv w)) w)))
                else w)
      in if f_shader_source (priv w4) \<noteq> None then av_freep_f_shader_source w4 else w4)"
  by (simp add: uninit_def Let_def)

lemma uninit_accounted:
  assumes acc: "accounted w"
  shows "released (trace (uninit w)) = owned (priv w)"
    and "created (trace (uninit w)) = created (trace w)"
    and "bad_releases (trace (uninit w)) = []"
    and "set (live (uninit w)) = set (live w) - set (owned (priv w))"
proof -
  note alive = owned_alive [OF acc]
  have base: "released (trace w) = []" "bad_releases (trace w) = []"
    using acc by (simp_all add: accounted_def)
  define w1 where "w1 = glDeleteTextures (frame_tex (priv w)) w"
  define w2 where "w2 = glDeleteProgram (program (priv w)) w1"
  define w3 where "w3 = glDeleteBuffers (pos_buf (priv w)) w2"
  define w4 where "w4 = glfwDestroyWindow (window (priv w)) w3"
  have s1: "priv w1 = priv w"
    "set (live w1) = set (live w) - set (handle Texture (frame_tex (priv w)))"
    "released (trace w1) = released (trace w) @ handle Texture (frame_tex (priv w))"
    "created (trace w1) = created (trace w)"
    "bad_releases (trace w1) = bad_releases (trace w)"
    unfolding w1_def by (rule glDeleteTextures_alive [OF alive(1)])+
  have "Program (program (priv w)) \<in> set (live w1) \<longleftrightarrow> program (priv w) \<noteq> 0"
    by (simp add: s1 alive)
  then have s2: "priv w2 = priv w1"
    "set (live w2) = set (live w1) - set (handle Program (program (priv w)))"
    "released (trace w2) = released (trace w1) @ handle Program (program (priv w))"
    "created (trace w2) = created (trace w1)"
    "bad_releases (trace w2) = bad_releases (trace w1)"
    unfolding w2_def by (rule glDeleteProgram_alive)+
  have "Buffer (pos_buf (priv w)) \<in> set (live w2) \<longleftrightarrow> pos_buf (priv w) \<noteq> 0"
    by (simp add: s1 s2 alive)
  then have s3: "priv w3 = priv w2"
    "set (live w3) = set (live w2) - set (handle Buffer (pos_buf (priv w)))"
    "released (trace w3) = released (trace w2) @ handle Buffer (pos_buf (priv w))"
    "created (trace w3) = created (trace w2)"
    "bad_releases (trace w3) = bad_releases (trace w2)"
    unfolding w3_def by (rule glDeleteBuffers_alive)+
  have "Window (window (priv w)) \<in> set (live w3) \<longleftrightarrow> window (priv w) \<noteq> 0"
    by (simp add: s1 s2 s3 alive)
  then have s4: "priv w4 = priv w3"
    "set (live w4) = set (live w3) - set (handle Window (window (priv w)))"
    "released (trace w4) = released (trace w3) @ handle Window (window (priv w))"
    "created (trace w4) = created (trace w3)"
    "bad_releases (trace w4) = bad_releases (trace w3)"
    unfolding w4_def by (rule glfwDestroyWindow_alive)+
  define gl where "gl = handle Texture (frame_tex (priv w)) @ handle Program (program (priv w)) @
     handle Buffer (pos_buf (priv w)) @ handle Window (window (priv w))"
  define w5 where "w5 = (if window (priv w) \<noteq> 0 then w4 else w)"
  have guard: "window (priv w) = 0 \<Longrightarrow> gl = []"
    using acc by (simp add: accounted_def gl_def)
  have s5: "priv w5 = priv w" "set (live w5) = set (live w) - set gl"
    "released (trace w5) = gl" "created (trace w5) = created (trace w)"
    "bad_releases (trace w5) = []"
    using guard base by (auto simp: w5_def s1 s2 s3 s4 gl_def)
  have heap: "\<And>p c. f_shader_source (priv w5) = Some (p, c) \<Longrightarrow> Heap p \<in> set (live w5)"
    using alive(5) by (auto simp: s5 gl_def)
  have s6: "set (live (av_freep_f_shader_source w5))
        = set (live w5) - set (heap_block (f_shader_source (priv w)))"
    "released (trace (av_freep_f_shader_source w5))
        = released (trace w5) @ heap_block (f_shader_source (priv w))"
    "created (trace (av_freep_f_shader_source w5)) = created (trace w5)"
    "bad_releases (trace (av_freep_f_shader_source w5)) = bad_releases (trace w5)"
    using av_freep_alive [of w5, OF heap] by (simp_all add: s5)
  have u: "uninit w = (if f_shader_source (priv w5) \<noteq> None then av_freep_f_shader_source w5 else w5)"
    by (simp add: uninit_eq w5_def w4_def w3_def w2_def w1_def Let_def)
  have own: "owned (priv w) = gl @ heap_block (f_shader_source (priv w))"
    by (simp add: owned_def gl_def)
  show "released (trace (uninit w)) = owned (priv w)"
    by (cases "f_shader_source (priv w)") (simp_all add: u s6 s5 own)
  show "created (trace (uninit w)) = created (trace w)"
    by (cases "f_shader_source (priv w)") (simp_all add: u s6 s5)
  show "bad_releases (trace (uninit w)) = []"
    by (cases "f_shader_source (priv w)") (simp_all add: u s6 s5)
  show "set (live (uninit w)) = set (live w) - set (owned (priv w))"
    by (cases "f_shader_source (priv w)") (auto simp: u s6 s5 own)
qed

lemma distinct_owned: "distinct (owned gs)"
  by (cases "f_shader_source gs") (auto simp: owned_def handle_def)

lemma lifecycle_accounted:
  assumes "lifecycle e frames (fresh_world dur off src) = Some w"
  shows "\<exists>w0. accounted w0 \<and> w = uninit w0"
proof -
  define w1 where "w1 = snd (init e (fresh_world dur off src))"
  have acc1: "accounted w1" and zero: "owned (priv w1) = []"
    unfolding w1_def by (simp_all add: init_accounted fresh_world_accounted)
  show ?thesis
  proof (cases "fst (init e (fresh_world dur off src)) < 0")
    case True
    then have "w = uninit w1"
      using assms by (simp add: lifecycle_def w1_def case_prod_beta)
    then show ?thesis using acc1 by blast
  next
    case False
    obtain o2 w2 where cfg: "config_props e w1 = (o2, w2)"
      by (cases "config_props e w1")
    show ?thesis
    proof (cases o2)
      case Undefined_Behaviour
      then show ?thesis
        using assms False cfg by (simp add: lifecycle_def w1_def case_prod_beta)
    next
      case (Returns ret)
      then have acc2: "accounted w2"
        using config_props_accounted [OF acc1 zero] cfg by simp
      have "w = uninit w2 \<or> w = uninit (feed e frames w2)"
        using assms False cfg Returns
        by (auto simp: lifecycle_def w1_def case_prod_beta split: if_splits)
      then show ?thesis
        using acc2 feed_accounted [OF acc2] by blast
    qed
  qed
qed

text \<open>
  Claim C9. Whatever the window system, the driver and the C library answer, and
  whatever frames arrive, an instance that goes from \<^verbatim>\<open>init\<close> to \<^verbatim>\<open>uninit\<close>
  without undefined behaviour releases exactly the window, program, buffer, texture
  and source buffer it created, each once, and nothing that was not created; of what
  it created only shader objects stay alive. \<^verbatim>\<open>uninit\<close> tests the window alone
  before the four GL deletes: where the program, the buffer or the texture was never
  created the handle is still 0, and the delete call on it releases nothing.
\<close>

theorem teardown_releases_what_was_created:
  assumes "lifecycle e frames (fresh_world dur off src) = Some w"
  shows "set (released (trace w)) = set (filter (\<lambda>r. \<not> is_shader r) (created (trace w))) \<and>
         distinct (released (trace w)) \<and> distinct (created (trace w)) \<and>
         bad_releases (trace w) = [] \<and>
         filter (\<lambda>r. \<not> is_shader r) (live w) = []"
proof -
  obtain w0 where acc: "accounted w0" and w: "w = uninit w0"
    using lifecycle_accounted [OF assms] by blast
  have rel: "released (trace w) = owned (priv w0)"
    and cre: "created (trace w) = created (trace w0)"
    and bad: "bad_releases (trace w) = []"
    and lv: "set (live w) = set (live w0) - set (owned (priv w0))"
    unfolding w by (rule uninit_accounted [OF acc])+
  have base: "created (trace w0) = rev (live w0)" "distinct (live w0)"
    "set (filter (\<lambda>r. \<not> is_shader r) (live w0)) = set (owned (priv w0))"
    using acc by (simp_all add: accounted_def)
  have "set (released (trace w)) = set (filter (\<lambda>r. \<not> is_shader r) (created (trace w)))"
    using base(3) by (simp add: rel cre base(1))
  moreover have "distinct (released (trace w))"
    by (simp add: rel distinct_owned)
  moreover have "distinct (created (trace w))"
    by (simp add: cre base)
  moreover have "filter (\<lambda>r. \<not> is_shader r) (live w) = []"
    using base(3) lv by (auto simp: filter_empty_conv)
  ultimately show ?thesis using bad by blast
qed

text \<open>
  Three runs in full. When the program does not link, the buffer and the texture were
  never created and their handles are 0: the two delete calls are ignored. When no
  vertex shader can be created, so is the call for the program.
\<close>

lemmas run_defs = lifecycle_def init_def config_props_def build_program_eq compose_and_link_eq
  build_shader_def vbo_setup_def tex_setup_def uniforms_setup_def create_def emit_def release_def
  uninit_def glDeleteTextures_def glDeleteProgram_def glDeleteBuffers_def glfwDestroyWindow_def
  av_freep_f_shader_source_def fresh_world_def Let_def

lemma teardown_after_success:
  "map_option (\<lambda>w. filter is_delete (trace w)) (lifecycle sample_env [] (fresh_world (Fin 1) (Fin 0) None)) =
     Some [Released (Texture 7), Released (Program 5), Released (Buffer 6),
           Released (Window 1), Released (Heap 3)]"
  by (simp add: run_defs sample_env_def composed_default c_str_composed_default)

lemma teardown_after_failed_link:
  "map_option trace (lifecycle failed_link_env frames (fresh_world (Fin 1) (Fin 0) None)) =
     Some [Created (Window 1), Created (Shader 2), Compile 2 v_shader_source,
           Created (Heap 3), Created (Shader 4),
           Compile 4 (template_head @ f_default_transition_source @ template_tail),
           Created (Program 5), Link 5,
           Ignored (Texture 0), Released (Program 5), Ignored (Buffer 0),
           Released (Window 1), Released (Heap 3)]"
  by (simp add: run_defs failed_link_env_def sample_env_def composed_default
      c_str_composed_default c_str_v_shader_source)

lemma teardown_without_vertex_shader:
  "map_option trace (lifecycle no_vertex_shader_env frames (fresh_world (Fin 1) (Fin 0) None)) =
     Some [Created (Window 1),
           Ignored (Texture 0), Ignored (Program 0), Ignored (Buffer 0), Released (Window 1)]"
  by (simp add: run_defs no_vertex_shader_env_def sample_env_def)

theorem teardown_releases_what_was_created_witness:
  "released (trace (the (lifecycle failed_link_env [] (fresh_world (Fin 1) (Fin 0) None))))
     = [Program 5, Window 1, Heap 3] \<and>
   created (trace (the (lifecycle failed_link_env [] (fresh_world (Fin 1) (Fin 0) None))))
     = [Window 1, Shader 2, Heap 3, Shader 4, Program 5] \<and>
   bad_releases (trace (the (lifecycle failed_link_env [] (fresh_world (Fin 1) (Fin 0) None)))) = [] \<and>
   filter (\<lambda>r. \<not> is_shader r) (live (the (lifecycle failed_link_env [] (fresh_world (Fin 1) (Fin 0) None))))
     = []"
proof -
  have tr: "map_option trace (lifecycle failed_link_env [] (fresh_world (Fin 1) (Fin 0) None)) =
     Some [Created (Window 1), Created (Shader 2), Compile 2 v_shader_source,
           Created (Heap 3), Created (Shader 4),
           Compile 4 (template_head @ f_default_transition_source @ template_tail),
           Created (Program 5), Link 5,
           Ignored (Texture 0), Released (Program 5), Ignored (Buffer 0),
           Released (Window 1), Released (Heap 3)]"
    by (rule teardown_after_failed_link)
  then obtain w where run: "lifecycle failed_link_env [] (fresh_world (Fin 1) (Fin 0) None) = Some w"
    by (cases "lifecycle failed_link_env [] (fresh_world (Fin 1) (Fin 0) None)") simp_all
  from teardown_releases_what_was_created [OF run] tr run
  show ?thesis by simp
qed

section \<open>The progress over a whole run\<close>

lemma build_shader_uniforms [simp]:
  "uniform_values (trace (snd (build_shader e src ty w))) = uniform_values (trace w)"
  by (simp add: build_shader_def create_def emit_def Let_def trace_appends)

lemma compose_and_link_uniforms [simp]:
  "uniform_values (trace (snd (compose_and_link e v ts w))) = uniform_values (trace w)"
  by (simp add: compose_and_link_eq Let_def trace_appends split: option.split)

lemma build_program_uniforms [simp]:
  "uniform_values (trace (snd (build_program e w))) = uniform_values (trace w)"
  by (simp add: build_program_eq Let_def trace_appends split: option.split)

lemma setup_uniforms:
  "uniform_values (trace (uniforms_setup e (tex_setup (vbo_setup w))))
     = uniform_values (trace w) @ [Fin 0]"
  by (simp add: uniforms_setup_def tex_setup_def vbo_setup_def create_def emit_def Let_def
      trace_appends)

lemma config_props_uniforms:
  "list_all in_unit (uniform_values (trace w)) \<Longrightarrow>
   list_all in_unit (uniform_values (trace (snd (config_props e w))))"
proof (cases "glfwCreateWindow_ok e")
  case False
  assume "list_all in_unit (uniform_values (trace w))"
  then show ?thesis using False by (simp add: config_props_def)
next
  case True
  assume a: "list_all in_unit (uniform_values (trace w))"
  define w1 where "w1 = (snd (create Window w))\<lparr>priv := (priv w)\<lparr>window := next_name w\<rparr>\<rparr>"
  have u1: "uniform_values (trace w1) = uniform_values (trace w)"
    by (simp add: w1_def trace_appends)
  obtain o2 w2 where bp: "build_program e w1 = (o2, w2)"
    by (cases "build_program e w1")
  have u2: "uniform_values (trace w2) = uniform_values (trace w)"
    using build_program_uniforms [of e w1] bp u1 by simp
  have "snd (config_props e w) = w2 \<or>
        snd (config_props e w) = uniforms_setup e (tex_setup (vbo_setup w2))"
    using True bp [unfolded w1_def]
    by (cases o2) (simp_all add: config_props_def case_prod_beta)
  then show ?thesis
    using a u2 by (auto simp: setup_uniforms)
qed

lemma filter_frame_uniforms:
  "list_all in_unit (uniform_values (trace w)) \<Longrightarrow>
   list_all in_unit (uniform_values (trace (snd (snd (filter_frame e den frame w)))))"
  by (simp add: filter_frame_def Let_def trace_appends frame_progress_in_unit)

lemma feed_uniforms:
  "list_all in_unit (uniform_values (trace w)) \<Longrightarrow>
   list_all in_unit (uniform_values (trace (feed e frames w)))"
  by (induction e frames w rule: feed.induct) (simp_all add: filter_frame_uniforms)

lemma uninit_uniforms [simp]:
  "uniform_values (trace (uninit w)) = uniform_values (trace w)"
  by (simp add: uninit_eq Let_def glDeleteTextures_def glDeleteProgram_def glDeleteBuffers_def
      glfwDestroyWindow_def av_freep_f_shader_source_def trace_appends split: option.split)

text \<open>
  Every value an instance passes to \<^verbatim>\<open>glUniform1f\<close> between \<^verbatim>\<open>init\<close> and
  \<^verbatim>\<open>uninit\<close>, the 0 of \<^verbatim>\<open>uniforms_setup\<close> and the progress of each frame, lies in
  the unit interval.
\<close>

lemma lifecycle_uniforms_in_unit:
  assumes "lifecycle e frames (fresh_world dur off src) = Some w"
  shows "list_all in_unit (uniform_values (trace w))"
proof -
  define w1 where "w1 = snd (init e (fresh_world dur off src))"
  have p1: "list_all in_unit (uniform_values (trace w1))"
    by (simp add: w1_def init_def fresh_world_def Let_def)
  have p2: "list_all in_unit (uniform_values (trace (snd (config_props e w1))))"
    using p1 by (rule config_props_uniforms)
  have "w = uninit w1 \<or> w = uninit (snd (config_props e w1))
      \<or> w = uninit (feed e frames (snd (config_props e w1)))"
    using assms unfolding lifecycle_def w1_def [symmetric]
    by (cases "config_props e w1"; cases "fst (config_props e w1)")
       (auto simp: case_prod_beta w1_def split: if_splits)
  then show ?thesis
    using p1 p2 feed_uniforms [OF p2] by auto
qed

end
